theory Spec2Isabelle
  imports Main "HOL-Library.Sublist"
begin

section \<open>Python strings\<close>

text \<open>
  A Python \<open>str\<close> is a \<open>string\<close>; a character is a code point below 256.
  \<open>is_space\<close> is \<open>str.isspace\<close> on that range, which is also what the pattern
  \<open>\s\<close> of \<open>space_re\<close> matches.
\<close>

definition is_space :: "char \<Rightarrow> bool" where
  "is_space c = (of_char c \<in> {9, 10, 11, 12, 13, 28, 29, 30, 31, 32, 133, 160 :: nat})"

text \<open>\<open>s.startswith(p)\<close>\<close>

definition startswith :: "string \<Rightarrow> string \<Rightarrow> bool" where
  "startswith s p = (take (length p) s = p)"

text \<open>\<open>sub in s\<close>\<close>

fun contains :: "string \<Rightarrow> string \<Rightarrow> bool" where
  "contains [] sub = (sub = [])"
| "contains (c # cs) sub = (startswith (c # cs) sub \<or> contains cs sub)"

text \<open>\<open>s.rstrip()\<close> and \<open>s.strip()\<close>\<close>

definition rstrip :: "string \<Rightarrow> string" where
  "rstrip s = rev (dropWhile is_space (rev s))"

definition strip :: "string \<Rightarrow> string" where
  "strip s = dropWhile is_space (rstrip s)"

text \<open>
  \<open>space_re.split(s)\<close> with \<open>space_re = re.compile(r"\s+")\<close>: the pieces between the
  maximal runs of whitespace. The result is never empty: the empty string gives \<open>['']\<close>,
  and a leading or trailing run gives an empty first or last piece.
\<close>

fun space_re_split :: "string \<Rightarrow> string list" where
  "space_re_split [] = [[]]"
| "space_re_split (c # cs) =
     (if is_space c then
        (if cs \<noteq> [] \<and> is_space (hd cs) then space_re_split cs else [] # space_re_split cs)
      else (case space_re_split cs of [] \<Rightarrow> [[c]] | t # ts \<Rightarrow> (c # t) # ts))"

text \<open>\<open>s.replace(old, '')\<close> for a non-empty \<open>old\<close>: every occurrence, left to right.\<close>

function replace_del :: "string \<Rightarrow> string \<Rightarrow> string" where
  "replace_del old s =
     (if old = [] \<or> s = [] then s
      else if startswith s old then replace_del old (drop (length old) s)
      else hd s # replace_del old (tl s))"
  by pat_completeness auto
termination
  by (relation "measure (\<lambda>(old, s). length s)") auto

text \<open>\<open>line.replace('\t', ' ')\<close>\<close>

definition replace_tab :: "string \<Rightarrow> string" where
  "replace_tab s = map (\<lambda>c. if c = CHR 0x09 then CHR '' '' else c) s"

text \<open>\<open>cleanPath\<close>: \<open>path.replace('\\', '/')\<close>\<close>

definition cleanPath :: "string \<Rightarrow> string" where
  "cleanPath path = map (\<lambda>c. if c = CHR 0x5C then CHR ''/'' else c) path"

text \<open>\<open>os.path.basename\<close> (posixpath): what follows the last \<open>/\<close>.\<close>

definition basename :: "string \<Rightarrow> string" where
  "basename p = rev (takeWhile (\<lambda>c. c \<noteq> CHR ''/'') (rev p))"

text \<open>\<open>xs.index(x)\<close>: the first position of \<open>x\<close>, or no position (ValueError).\<close>

fun list_index :: "'a list \<Rightarrow> 'a \<Rightarrow> nat option" where
  "list_index [] x = None"
| "list_index (y # ys) x = (if y = x then Some 0 else map_option Suc (list_index ys x))"

section \<open>The module's constants\<close>

definition rotation_orders :: "string list" where
  "rotation_orders = [''XYZ'', ''YZX'', ''ZXY'', ''XZY'', ''YXZ'', ''ZYX'']"

definition translationDict :: "string \<rightharpoonup> string" where
  "translationDict = map_of
     [(''Xposition'', ''translateX''),
      (''Yposition'', ''translateY''),
      (''Zposition'', ''translateZ''),
      (''Xrotation'', ''rotateX''),
      (''Yrotation'', ''rotateY''),
      (''Zrotation'', ''rotateZ'')]"

section \<open>TinyDAG\<close>

text \<open>
  \<open>obj\<close> is a string everywhere but in \<open>readFile\<close>'s re-import branch, which passes the
  persisted root, itself a \<open>TinyDAG\<close>; \<open>str\<close> of such a node is \<open>str\<close> of its \<open>obj\<close>.
\<close>

datatype TinyDAG = TinyDAG dag_obj "TinyDAG option"
and dag_obj = ObjStr string | ObjDag TinyDAG

primrec parent :: "TinyDAG \<Rightarrow> TinyDAG option" where
  "parent (TinyDAG ob p) = p"

primrec str_dag :: "TinyDAG \<Rightarrow> string"
  and str_obj :: "dag_obj \<Rightarrow> string" where
  "str_dag (TinyDAG ob p) = str_obj ob"
| "str_obj (ObjStr s) = s"
| "str_obj (ObjDag d) = str_dag d"

fun full_path :: "TinyDAG \<Rightarrow> string" where
  "full_path (TinyDAG ob None) = str_obj ob"
| "full_path (TinyDAG ob (Some p)) = full_path p @ ''|'' @ str_obj ob"


section \<open>Errors, the scene collaborator and the importer's state\<close>

text \<open>
  Every exception the Python code can raise by itself. \<open>Exception\<close> carries the message
  of an explicit \<open>raise Exception(...)\<close>.
\<close>

datatype error =
    Exception string
  | IndexError
  | ValueError
  | KeyError
  | AttributeError
  | UnboundLocalError
  | TypeError
  | OSError

text \<open>
  The scene (\<open>maya.cmds\<close>) is not part of the repository. Its state is the list of the
  mutating commands issued so far, oldest first, and the answer of a query is a function
  of that list, taken as a parameter. Errors raised inside the scene are not modelled:
  a run ends in an error only when the Python code itself raises.

  A Python value interpolated into an attribute path (\<open>f'{v}.attr'\<close>) is kept as the
  value: a string, or the token list that a \<open>JOINT\<close> line leaves in \<open>jnt\<close>.
\<close>

datatype pyobj = PStr string | PList "string list"

datatype 'f arg = AFloat 'f | AInt int

datatype 'f mc_call =
    Group string
  | SetAttr pyobj string "'f arg list" "string option"
  | Select string bool
  | Joint string
  | SetKeyframe string nat 'f
  | Delete "string list"

text \<open>
  \<^item> \<open>Group n\<close> is \<open>mc.group(em=True, name=n)\<close>;
  \<^item> \<open>SetAttr v attr args typ\<close> is \<open>mc.setAttr(f'{v}.attr', *args)\<close>, with \<open>typ=...\<close>
    when given;
  \<^item> \<open>Select path hi\<close> is \<open>mc.select(path)\<close>, with \<open>hi=True\<close> when the flag is set;
  \<^item> \<open>Joint n\<close> is \<open>mc.joint(name=n, p=(0, 0, 0))\<close>;
  \<^item> \<open>SetKeyframe attr t v\<close> is \<open>mc.setKeyframe(attr, time=t, value=v)\<close>;
  \<^item> \<open>Delete cs\<close> is \<open>mc.delete(cs)\<close>.
\<close>

datatype fs_entry = Directory | RegularFile "string list"

text \<open>
  The environment: the file system (a path is absent, a directory, or a file with the
  lines \<open>readlines\<close> returns), Python's \<open>float\<close> and \<open>int\<close> on strings (\<open>None\<close> is
  ValueError; floats are an abstract type \<open>'f\<close>), and the scene's answers.
\<close>

record 'f env =
  fs :: "string \<Rightarrow> fs_entry option"
  pyfloat :: "string \<Rightarrow> 'f option"
  pyint :: "string \<Rightarrow> int option"
  group_ret :: "'f mc_call list \<Rightarrow> string \<Rightarrow> string"
  objExists :: "'f mc_call list \<Rightarrow> string \<Rightarrow> bool"
  joint_ret :: "'f mc_call list \<Rightarrow> string \<Rightarrow> string"
  ls_sl :: "'f mc_call list \<Rightarrow> string list"
  listConnections :: "'f mc_call list \<Rightarrow> string \<Rightarrow> string list option"

text \<open>
  The fields of an \<open>ImportBVH\<close> object (\<open>self_...\<close>), the local variables of
  \<open>readFile\<close>, and the commands issued to the scene. \<open>jnt = None\<close> is the unbound local;
  \<open>rot_order\<close> is read only in the statement after its assignment and is a \<open>let\<close> there.
\<close>

record 'f state =
  self_data :: "string list option"
  self_scale :: 'f
  self_channels :: "string list"
  self_root_node :: "TinyDAG option"
  self_root_node_full_path :: "string option"
  self_file_path :: "string option"
  safe_close :: bool
  motion :: bool
  frame :: nat
  my_parent :: "TinyDAG option"
  jnt :: "pyobj option"
  calls :: "'f mc_call list"

type_synonym 'f result = "(error \<times> 'f state) + 'f state"

definition issue :: "'f mc_call \<Rightarrow> 'f state \<Rightarrow> 'f state" where
  "issue c s = s\<lparr>calls := calls s @ [c]\<rparr>"

text \<open>\<open>str(my_parent)\<close>: \<open>str(None)\<close> is \<open>'None'\<close>.\<close>

definition str_node :: "TinyDAG option \<Rightarrow> string" where
  "str_node n = (case n of None \<Rightarrow> ''None'' | Some d \<Rightarrow> str_dag d)"

text \<open>The property \<open>root_node\<close>: \<open>str(self._root_node_full_path)\<close>\<close>

definition root_node :: "'f state \<Rightarrow> string" where
  "root_node s = (case self_root_node_full_path s of None \<Rightarrow> ''None'' | Some p \<Rightarrow> p)"

section \<open>readFile: one line of the hierarchy section\<close>

text \<open>\<open>if line.startswith('ROOT')\<close>\<close>

definition line_root :: "string \<Rightarrow> 'f state \<Rightarrow> 'f state" where
  "line_root line s =
     (if startswith line ''ROOT'' then
        (case self_root_node s of
           Some r \<Rightarrow> s\<lparr>my_parent := Some (TinyDAG (ObjStr (str_dag r)) None)\<rparr>
         | None \<Rightarrow>
             (let p = TinyDAG (ObjStr (rstrip (drop 5 line))) (my_parent s)
              in s\<lparr>my_parent := Some p,
                   self_root_node := Some p,
                   self_root_node_full_path := Some (full_path p)\<rparr>))
      else s)"

text \<open>\<open>if 'JOINT' in line\<close>: \<open>jnt\<close> takes the token list, then \<open>jnt[1]\<close> names the child.\<close>

definition line_joint :: "string \<Rightarrow> 'f state \<Rightarrow> 'f result" where
  "line_joint line s =
     (if contains line ''JOINT'' then
        (let toks = space_re_split (strip line); s1 = s\<lparr>jnt := Some (PList toks)\<rparr>
         in if 1 < length toks
            then Inr (s1\<lparr>my_parent := Some (TinyDAG (ObjStr (toks ! 1)) (my_parent s1))\<rparr>)
            else Inl (IndexError, s1))
      else Inr s)"

text \<open>\<open>if 'End Site' in line\<close>\<close>

definition line_end_site :: "string \<Rightarrow> 'f state \<Rightarrow> 'f state" where
  "line_end_site line s = (if contains line ''End Site'' then s\<lparr>safe_close := True\<rparr> else s)"

text \<open>The ascent of \<open>if '}' in line\<close> when \<open>safe_close\<close> is off.\<close>

definition ascend :: "'f state \<Rightarrow> 'f state" where
  "ascend s =
     (case my_parent s of
        None \<Rightarrow> s
      | Some p \<Rightarrow>
          (case parent p of
             None \<Rightarrow> s\<lparr>my_parent := None\<rparr>
           | Some q \<Rightarrow> issue (Select (full_path q) False) (s\<lparr>my_parent := Some q\<rparr>)))"

text \<open>
  The axis string of a \<open>CHANNELS\<close> line:
  \<open>axis = [i.replace('rotation', '') for i in chan[-3:]]; axis.reverse(); ''.join(axis)\<close>
\<close>

definition axis_of :: "string list \<Rightarrow> string" where
  "axis_of chan = concat (rev (map (replace_del ''rotation'') (drop (length chan - 3) chan)))"

text \<open>
  \<open>for i in range(int(chan[1])): self._channels.append(
     f'{my_parent.full_path()}.{self.translationDict[chan[2 + i]]}')\<close>
  over the indices still to do; an error keeps the entries appended so far.
\<close>

fun append_channels ::
  "TinyDAG option \<Rightarrow> string list \<Rightarrow> nat list \<Rightarrow> string list \<Rightarrow> (error \<times> string list) + string list"
where
  "append_channels mp chan [] cs = Inr cs"
| "append_channels mp chan (i # is) cs =
     (case mp of
        None \<Rightarrow> Inl (AttributeError, cs)
      | Some p \<Rightarrow>
          if 2 + i < length chan then
            (case translationDict (chan ! (2 + i)) of
               None \<Rightarrow> Inl (KeyError, cs)
             | Some a \<Rightarrow> append_channels mp chan is (cs @ [full_path p @ ''.'' @ a]))
          else Inl (IndexError, cs))"

text \<open>\<open>if 'CHANNELS' in line\<close>\<close>

definition line_channels :: "'f env \<Rightarrow> string \<Rightarrow> 'f state \<Rightarrow> 'f result" where
  "line_channels env line s =
     (if contains line ''CHANNELS'' then
        (let chan = space_re_split (strip line)
         in case list_index rotation_orders (axis_of chan) of
              None \<Rightarrow> Inl (ValueError, s)
            | Some rot_order \<Rightarrow>
                if 1 < length chan then
                  (case pyint env (chan ! 1) of
                     None \<Rightarrow> Inl (ValueError, s)
                   | Some n \<Rightarrow>
                       (case append_channels (my_parent s) chan [0..<nat n] (self_channels s) of
                          Inl (e, cs) \<Rightarrow> Inl (e, s\<lparr>self_channels := cs\<rparr>)
                        | Inr cs \<Rightarrow>
                            (let s1 = s\<lparr>self_channels := cs\<rparr>
                             in case jnt s1 of
                                  None \<Rightarrow> Inl (UnboundLocalError, s1)
                                | Some v \<Rightarrow>
                                    Inr (issue (SetAttr v ''rotateOrder'' [AInt (int rot_order)] None)
                                           s1))))
                else Inl (IndexError, s))
      else Inr s)"

text \<open>\<open>if 'OFFSET' in line\<close>\<close>

definition line_offset :: "'f env \<Rightarrow> string \<Rightarrow> 'f state \<Rightarrow> 'f result" where
  "line_offset env line s =
     (if contains line ''OFFSET'' then
        (let offset = space_re_split (strip line);
             jnt_name = str_node (my_parent s) @ (if safe_close s then ''_tip'' else [])
         in case my_parent s of
              None \<Rightarrow> Inl (AttributeError, s)
            | Some p \<Rightarrow>
                (let j = (if objExists env (calls s) (full_path p) then full_path p
                          else joint_ret env (calls s) jnt_name);
                     s1 = (if objExists env (calls s) (full_path p) then s
                           else issue (Joint jnt_name) s)\<lparr>jnt := Some (PStr j)\<rparr>
                 in case those (map (pyfloat env) (tl offset)) of
                      None \<Rightarrow> Inl (ValueError, s1)
                    | Some vs \<Rightarrow>
                        Inr (issue (SetAttr (PStr j) ''translate'' (map AFloat vs) (Some ''double3''))
                               s1)))
      else Inr s)"

text \<open>\<open>if 'MOTION' in line\<close>\<close>

definition line_motion :: "string \<Rightarrow> 'f state \<Rightarrow> 'f state" where
  "line_motion line s = (if contains line ''MOTION'' then s\<lparr>motion := True\<rparr> else s)"

section \<open>readFile: one line of the motion section\<close>

text \<open>
  \<open>for index, value in enumerate(data): mc.setKeyframe(self._channels[index],
     time=frame, value=float(value))\<close>: the table is indexed before the token is parsed.
\<close>

fun set_keyframes :: "'f env \<Rightarrow> string list \<Rightarrow> nat \<Rightarrow> 'f state \<Rightarrow> 'f result" where
  "set_keyframes env [] index s = Inr s"
| "set_keyframes env (v # rest) index s =
     (if index < length (self_channels s) then
        (case pyfloat env v of
           None \<Rightarrow> Inl (ValueError, s)
         | Some x \<Rightarrow>
             set_keyframes env rest (Suc index)
               (issue (SetKeyframe (self_channels s ! index) (frame s) x) s))
      else Inl (IndexError, s))"

definition line_frame :: "'f env \<Rightarrow> string \<Rightarrow> 'f state \<Rightarrow> 'f result" where
  "line_frame env line s =
     (if \<not> contains line ''Frame'' then
        (case set_keyframes env (space_re_split (strip line)) 0 s of
           Inl e \<Rightarrow> Inl e
         | Inr s1 \<Rightarrow> Inr (s1\<lparr>frame := frame s1 + 1\<rparr>))
      else Inr s)"

section \<open>readFile: the loop body and the loop\<close>

text \<open>
  The checks of one iteration, in the source's order, each on the line with its tabs
  replaced; \<open>continue\<close> ends the iteration at the closing brace of an End Site.
\<close>

definition read_line :: "'f env \<Rightarrow> 'f state \<Rightarrow> string \<Rightarrow> 'f result" where
  "read_line env s line0 =
     (let line = replace_tab line0
      in if \<not> motion s then
           (case line_joint line (line_root line s) of
              Inl e \<Rightarrow> Inl e
            | Inr s2 \<Rightarrow>
                (let s3 = line_end_site line s2
                 in if contains line ''}'' \<and> safe_close s3 then Inr (s3\<lparr>safe_close := False\<rparr>)
                    else
                      (case line_channels env line (if contains line ''}'' then ascend s3 else s3) of
                         Inl e \<Rightarrow> Inl e
                       | Inr s5 \<Rightarrow>
                           (case line_offset env line s5 of
                              Inl e \<Rightarrow> Inl e
                            | Inr s6 \<Rightarrow> Inr (line_motion line s6)))))
         else line_frame env line s)"

fun read_lines :: "'f env \<Rightarrow> 'f state \<Rightarrow> string list \<Rightarrow> 'f result" where
  "read_lines env s [] = Inr s"
| "read_lines env s (l # ls) =
     (case read_line env s l of Inl e \<Rightarrow> Inl e | Inr s1 \<Rightarrow> read_lines env s1 ls)"

section \<open>_clear_animation\<close>

definition trans_attrs :: "string list" where
  "trans_attrs = [''translateX'', ''translateY'', ''translateZ'']"

definition rot_attrs :: "string list" where
  "rot_attrs = [''rotateX'', ''rotateY'', ''rotateZ'']"

text \<open>The first inner loop: delete the input connections of each attribute of a node.\<close>

fun delete_inputs :: "'f env \<Rightarrow> string \<Rightarrow> string list \<Rightarrow> 'f state \<Rightarrow> 'f state" where
  "delete_inputs env node [] s = s"
| "delete_inputs env node (attr # attrs) s =
     (case listConnections env (calls s) (node @ ''.'' @ attr) of
        None \<Rightarrow> delete_inputs env node attrs s
      | Some connections \<Rightarrow> delete_inputs env node attrs (issue (Delete connections) s))"

text \<open>The second inner loop: reset the rotation attributes of a node.\<close>

fun reset_rotation :: "string \<Rightarrow> string list \<Rightarrow> 'f state \<Rightarrow> 'f state" where
  "reset_rotation node [] s = s"
| "reset_rotation node (attr # attrs) s =
     reset_rotation node attrs (issue (SetAttr (PStr node) attr [AInt 0] None) s)"

fun clear_nodes :: "'f env \<Rightarrow> string list \<Rightarrow> 'f state \<Rightarrow> 'f state" where
  "clear_nodes env [] s = s"
| "clear_nodes env (node # nodes) s =
     clear_nodes env nodes
       (reset_rotation node rot_attrs (delete_inputs env node (trans_attrs @ rot_attrs) s))"

definition clear_animation :: "'f env \<Rightarrow> 'f state \<Rightarrow> 'f result" where
  "clear_animation env s =
     (case self_root_node s of
        None \<Rightarrow> Inl (Exception ''Could not find root node to clear animation.'', s)
      | Some r \<Rightarrow>
          (let s1 = issue (Select (str_dag r) True) s
           in Inr (clear_nodes env (ls_sl env (calls s1)) s1)))"

section \<open>readFile, getData and the constructor\<close>

text \<open>\<open>mc.setAttr(f'{g}.scale', *[self.scale for i in range(3)])\<close>\<close>

definition set_scale :: "string \<Rightarrow> 'f state \<Rightarrow> 'f state" where
  "set_scale g s =
     issue (SetAttr (PStr g) ''scale''
              [AFloat (self_scale s), AFloat (self_scale s), AFloat (self_scale s)] None) s"

text \<open>
  What \<open>readFile\<close> does before its loop: the locals are fresh, the channel table is
  cleared, and \<open>my_parent\<close> is the new group, or on a re-import a node whose \<open>obj\<close> is the
  persisted root, after which the animation is cleared.
\<close>

definition read_start :: "'f env \<Rightarrow> 'f state \<Rightarrow> 'f result" where
  "read_start env s0 =
     (let s = s0\<lparr>safe_close := False, motion := False, self_channels := [], frame := 0,
                 jnt := None\<rparr>
      in case self_root_node s of
           None \<Rightarrow>
             (case self_file_path s of
                None \<Rightarrow> Inl (AttributeError, s)
              | Some file_path \<Rightarrow>
                  (let name = ''_mocap_'' @ basename file_path @ ''_grp'';
                       grp = group_ret env (calls s) name
                   in Inr ((set_scale grp (issue (Group name) s))
                             \<lparr>my_parent := Some (TinyDAG (ObjStr grp) None)\<rparr>)))
         | Some r \<Rightarrow>
             clear_animation env
               ((set_scale (takeWhile (\<lambda>c. c \<noteq> CHR ''|'') (root_node s)) s)
                  \<lparr>my_parent := Some (TinyDAG (ObjDag r) None)\<rparr>))"

definition readFile :: "'f env \<Rightarrow> 'f state \<Rightarrow> 'f result" where
  "readFile env s0 =
     (case read_start env s0 of
        Inl e \<Rightarrow> Inl e
      | Inr s \<Rightarrow>
          (case self_data s of
             None \<Rightarrow> Inl (TypeError, s)
           | Some lines \<Rightarrow> read_lines env s lines))"

definition getData :: "'f env \<Rightarrow> string \<Rightarrow> 'f \<Rightarrow> 'f state \<Rightarrow> 'f result" where
  "getData env file_path scale s =
     (case fs env file_path of
        None \<Rightarrow> Inl (OSError, s)
      | Some Directory \<Rightarrow> Inl (OSError, s)
      | Some (RegularFile lines) \<Rightarrow>
          (let s1 = s\<lparr>self_data := Some lines\<rparr>
           in case lines of
                [] \<Rightarrow> Inl (IndexError, s1)
              | l # _ \<Rightarrow>
                  if \<not> startswith l ''HIERARCHY''
                  then Inl (Exception ''No valid bvh file was loaded'', s1\<lparr>self_data := None\<rparr>)
                  else readFile env (s1\<lparr>self_scale := scale\<rparr>)))"

text \<open>
  \<open>ImportBVH(file_path, scale)\<close>, in a scene that has received the commands \<open>cs\<close>.
  The locals of \<open>readFile\<close> have no value before its first call; the record starts them
  as \<open>readFile\<close> will.
\<close>

definition new_ImportBVH :: "'f env \<Rightarrow> string \<Rightarrow> 'f \<Rightarrow> 'f mc_call list \<Rightarrow> 'f result" where
  "new_ImportBVH env file_path0 scale cs =
     (let file_path = cleanPath file_path0;
          s = \<lparr>self_data = None, self_scale = scale, self_channels = [],
               self_root_node = None, self_root_node_full_path = None,
               self_file_path = None, safe_close = False, motion = False, frame = 0,
               my_parent = None, jnt = None, calls = cs\<rparr>
      in if fs env file_path = None then Inl (Exception ''File does not exist on disk'', s)
         else getData env file_path scale (s\<lparr>self_file_path := Some file_path\<rparr>))"


section \<open>A reference scene for concrete runs\<close>

text \<open>
  The theorems below hold for every environment. To run the importer on a concrete
  file an environment is needed; this one keeps the node paths, the selection and the
  animation curves that the issued commands give rise to. A new joint becomes a child
  of the selection and is selected, a group is created at the top and selected, and a
  name resolves to the first node whose path is that name or ends in \<open>|name\<close>. Numbers
  are unsigned decimal integers.
\<close>

record scene =
  sc_nodes :: "string list"
  sc_sel :: string
  sc_hi :: bool
  sc_curves :: "string list"

definition ends_with :: "string \<Rightarrow> string \<Rightarrow> bool" where
  "ends_with s p = (length p \<le> length s \<and> drop (length s - length p) s = p)"

definition resolve :: "string list \<Rightarrow> string \<Rightarrow> string" where
  "resolve ns p = (case filter (\<lambda>q. q = p \<or> ends_with q (CHR ''|'' # p)) ns of
                     [] \<Rightarrow> p | q # _ \<Rightarrow> q)"

definition curve_of :: "string list \<Rightarrow> string \<Rightarrow> string" where
  "curve_of ns a =
     resolve ns (rev (tl (dropWhile (\<lambda>c. c \<noteq> CHR ''.'') (rev a)))) @ ''_'' @
     rev (takeWhile (\<lambda>c. c \<noteq> CHR ''.'') (rev a))"

definition legal_name :: "string \<Rightarrow> string" where
  "legal_name n = map (\<lambda>c. if c = CHR ''.'' then CHR ''_'' else c) n"

fun scene_step :: "scene \<Rightarrow> 'f mc_call \<Rightarrow> scene" where
  "scene_step sc (Group n) =
     sc\<lparr>sc_nodes := sc_nodes sc @ [legal_name n], sc_sel := legal_name n, sc_hi := False\<rparr>"
| "scene_step sc (Joint n) =
     (let p = (if sc_sel sc = [] then n else sc_sel sc @ ''|'' @ n)
      in sc\<lparr>sc_nodes := sc_nodes sc @ [p], sc_sel := p, sc_hi := False\<rparr>)"
| "scene_step sc (Select p hi) = sc\<lparr>sc_sel := resolve (sc_nodes sc) p, sc_hi := hi\<rparr>"
| "scene_step sc (SetKeyframe a t v) =
     sc\<lparr>sc_curves := List.insert (curve_of (sc_nodes sc) a) (sc_curves sc)\<rparr>"
| "scene_step sc (Delete cs) = sc\<lparr>sc_curves := filter (\<lambda>c. c \<notin> set cs) (sc_curves sc)\<rparr>"
| "scene_step sc (SetAttr v a args typ) = sc"

definition scene_of :: "'f mc_call list \<Rightarrow> scene" where
  "scene_of cs = foldl scene_step \<lparr>sc_nodes = [], sc_sel = [], sc_hi = False, sc_curves = []\<rparr> cs"

fun digits_value :: "nat \<Rightarrow> string \<Rightarrow> nat option" where
  "digits_value acc [] = Some acc"
| "digits_value acc (c # cs) =
     (if 48 \<le> (of_char c :: nat) \<and> (of_char c :: nat) \<le> 57
      then digits_value (10 * acc + (of_char c - 48)) cs else None)"

definition read_number :: "string \<Rightarrow> int option" where
  "read_number s = (if s = [] then None else map_option int (digits_value 0 s))"

definition demo_env :: "(string \<Rightarrow> fs_entry option) \<Rightarrow> int env" where
  "demo_env files =
     \<lparr>fs = files,
      pyfloat = read_number,
      pyint = read_number,
      group_ret = (\<lambda>cs n. legal_name n),
      objExists = (\<lambda>cs p. resolve (sc_nodes (scene_of cs)) p \<in> set (sc_nodes (scene_of cs))),
      joint_ret = (\<lambda>cs n. n),
      ls_sl = (\<lambda>cs. let sc = scene_of cs
                    in if sc_hi sc
                       then filter (\<lambda>n. n = sc_sel sc \<or> startswith n (sc_sel sc @ ''|''))
                              (sc_nodes sc)
                       else [sc_sel sc]),
      listConnections = (\<lambda>cs a. let sc = scene_of cs; c = curve_of (sc_nodes sc) a
                               in if c \<in> set (sc_curves sc) then Some [c] else None)\<rparr>"

text \<open>
  The scenario file of the specification's testable properties: its hierarchy section,
  the marker line, and the lines after it.
\<close>

definition hip_hierarchy :: "string list" where
  "hip_hierarchy =
     [''HIERARCHY\<newline>'',
      ''ROOT Hip\<newline>'',
      ''{\<newline>'',
      ''OFFSET 0 0 0\<newline>'',
      ''CHANNELS 6 Xposition Yposition Zposition Zrotation Xrotation Yrotation\<newline>'',
      ''}\<newline>'']"

definition hip_motion :: "string list" where
  "hip_motion =
     [''Frames: 2\<newline>'',
      ''Frame Time: 0.033333\<newline>'',
      ''0 0 0 0 0 0\<newline>'',
      ''1 2 3 4 5 6\<newline>'']"

definition hip_bvh :: "string list" where
  "hip_bvh = hip_hierarchy @ ''MOTION\<newline>'' # hip_motion"

definition hip_files :: "string \<Rightarrow> fs_entry option" where
  "hip_files = [''hip.bvh'' \<mapsto> RegularFile hip_bvh]"

text \<open>The importer on that file, as the constructor hands it to \<open>readFile\<close>.\<close>

definition hip_fresh :: "int state" where
  "hip_fresh =
     \<lparr>self_data = Some hip_bvh, self_scale = 1, self_channels = [],
      self_root_node = None, self_root_node_full_path = None,
      self_file_path = Some ''hip.bvh'', safe_close = False, motion = False, frame = 0,
      my_parent = None, jnt = None, calls = []\<rparr>"

section \<open>Notions of the specification\<close>

text \<open>A line with no content: nothing is left once the whitespace is stripped.\<close>

definition blank :: "string \<Rightarrow> bool" where
  "blank l = (strip l = [])"

text \<open>A file system with one file that starts with a blank line, for the constructor.\<close>

definition blank_files :: "string \<Rightarrow> fs_entry option" where
  "blank_files = [''bad.bvh'' \<mapsto> RegularFile [[CHR 0x0A], ''MOTION'' @ [CHR 0x0A]]]"

text \<open>
  The keyframes of one motion line as the specification words them: token \<open>i\<close> goes to
  entry \<open>i\<close> of the channel table, at the time of the line's frame.
\<close>

definition keyframe_calls :: "'f env \<Rightarrow> string list \<Rightarrow> nat \<Rightarrow> string list \<Rightarrow> 'f mc_call list" where
  "keyframe_calls env table t toks =
     map (\<lambda>i. SetKeyframe (table ! i) t (the (pyfloat env (toks ! i)))) [0..<length toks]"

text \<open>
  The clear-animation pass on one node as the specification words it: for each of the
  six transform attributes delete the incoming connections if there are any, then set
  each rotation attribute to 0. The scene answers on the commands issued so far.
\<close>

definition spec_clear_node :: "'f env \<Rightarrow> 'f mc_call list \<Rightarrow> string \<Rightarrow> 'f mc_call list" where
  "spec_clear_node env cs node =
     foldl (\<lambda>cs attr. case listConnections env cs (node @ ''.'' @ attr) of
                        None \<Rightarrow> cs | Some conns \<Rightarrow> cs @ [Delete conns])
       cs [''translateX'', ''translateY'', ''translateZ'', ''rotateX'', ''rotateY'', ''rotateZ'']
     @ map (\<lambda>attr. SetAttr (PStr node) attr [AInt 0] None) [''rotateX'', ''rotateY'', ''rotateZ'']"



text \<open>A state in the middle of the hierarchy section, after the root's \<open>OFFSET\<close> line.\<close>

definition hip_state :: "int state" where
  "hip_state =
     \<lparr>self_data = Some hip_bvh, self_scale = 1, self_channels = [],
      self_root_node = Some (TinyDAG (ObjStr ''Hip'') (Some (TinyDAG (ObjStr ''grp'') None))),
      self_root_node_full_path = Some ''grp|Hip'',
      self_file_path = Some ''hip.bvh'', safe_close = False, motion = False, frame = 0,
      my_parent = Some (TinyDAG (ObjStr ''Hip'') (Some (TinyDAG (ObjStr ''grp'') None))),
      jnt = Some (PStr ''Hip''), calls = []\<rparr>"

text \<open>A state in the motion section, with a table of two channels.\<close>

definition hip_motion_state :: "int state" where
  "hip_motion_state =
     hip_state\<lparr>motion := True, self_channels := [''grp|Hip.rotateZ'', ''grp|Hip.rotateX'']\<rparr>"

text \<open>
  What the first import and a second import of the scenario leave behind in the
  reference scene: the channel table and the keyframes of a pass for a given path of
  the joint, and the two states.
\<close>

definition hip_table :: "string \<Rightarrow> string list" where
  "hip_table p =
     [p @ ''.translateX'', p @ ''.translateY'', p @ ''.translateZ'',
      p @ ''.rotateZ'', p @ ''.rotateX'', p @ ''.rotateY'']"

definition hip_keyframes :: "string \<Rightarrow> int mc_call list" where
  "hip_keyframes p =
     [SetKeyframe (p @ ''.translateX'') 0 0, SetKeyframe (p @ ''.translateY'') 0 0,
      SetKeyframe (p @ ''.translateZ'') 0 0, SetKeyframe (p @ ''.rotateZ'') 0 0,
      SetKeyframe (p @ ''.rotateX'') 0 0, SetKeyframe (p @ ''.rotateY'') 0 0,
      SetKeyframe (p @ ''.translateX'') 1 1, SetKeyframe (p @ ''.translateY'') 1 2,
      SetKeyframe (p @ ''.translateZ'') 1 3, SetKeyframe (p @ ''.rotateZ'') 1 4,
      SetKeyframe (p @ ''.rotateX'') 1 5, SetKeyframe (p @ ''.rotateY'') 1 6]"

definition hip_first_calls :: "int mc_call list" where
  "hip_first_calls =
     [Group ''_mocap_hip.bvh_grp'',
      SetAttr (PStr ''_mocap_hip_bvh_grp'') ''scale'' [AFloat 1, AFloat 1, AFloat 1] None,
      Joint ''Hip'',
      SetAttr (PStr ''Hip'') ''translate'' [AFloat 0, AFloat 0, AFloat 0] (Some ''double3''),
      SetAttr (PStr ''Hip'') ''rotateOrder'' [AInt 4] None,
      Select ''_mocap_hip_bvh_grp'' False]
     @ hip_keyframes ''_mocap_hip_bvh_grp|Hip''"

definition hip_imported :: "int state" where
  "hip_imported =
     hip_fresh
       \<lparr>self_channels := hip_table ''_mocap_hip_bvh_grp|Hip'',
        self_root_node :=
          Some (TinyDAG (ObjStr ''Hip'') (Some (TinyDAG (ObjStr ''_mocap_hip_bvh_grp'') None))),
        self_root_node_full_path := Some ''_mocap_hip_bvh_grp|Hip'',
        motion := True, frame := 2,
        my_parent := Some (TinyDAG (ObjStr ''_mocap_hip_bvh_grp'') None),
        jnt := Some (PStr ''Hip''),
        calls := hip_first_calls\<rparr>"

definition hip_second_calls :: "int mc_call list" where
  "hip_second_calls =
     [SetAttr (PStr ''_mocap_hip_bvh_grp'') ''scale'' [AFloat 1, AFloat 1, AFloat 1] None,
      Select ''Hip'' True,
      Delete [''_mocap_hip_bvh_grp|Hip_translateX''],
      Delete [''_mocap_hip_bvh_grp|Hip_translateY''],
      Delete [''_mocap_hip_bvh_grp|Hip_translateZ''],
      Delete [''_mocap_hip_bvh_grp|Hip_rotateX''],
      Delete [''_mocap_hip_bvh_grp|Hip_rotateY''],
      Delete [''_mocap_hip_bvh_grp|Hip_rotateZ''],
      SetAttr (PStr ''_mocap_hip_bvh_grp|Hip'') ''rotateX'' [AInt 0] None,
      SetAttr (PStr ''_mocap_hip_bvh_grp|Hip'') ''rotateY'' [AInt 0] None,
      SetAttr (PStr ''_mocap_hip_bvh_grp|Hip'') ''rotateZ'' [AInt 0] None,
      SetAttr (PStr ''Hip'') ''translate'' [AFloat 0, AFloat 0, AFloat 0] (Some ''double3''),
      SetAttr (PStr ''Hip'') ''rotateOrder'' [AInt 4] None]
     @ hip_keyframes ''Hip''"

definition hip_reimported :: "int state" where
  "hip_reimported =
     hip_imported
       \<lparr>self_channels := hip_table ''Hip'',
        my_parent := None,
        calls := hip_first_calls @ hip_second_calls\<rparr>"

text \<open>The data lines of a motion section: those without the token \<open>Frame\<close>.\<close>

definition data_lines :: "string list \<Rightarrow> string list" where
  "data_lines ls = filter (\<lambda>l. \<not> contains l ''Frame'') ls"

text \<open>
  The keyframes of a motion section as the specification words them: the data lines are
  numbered from the starting frame, and each sets its keyframes at its own number.
\<close>

definition motion_calls :: "'f env \<Rightarrow> string list \<Rightarrow> nat \<Rightarrow> string list \<Rightarrow> 'f mc_call list" where
  "motion_calls env table t0 ls =
     concat (map (\<lambda>(t, l). keyframe_calls env table t (space_re_split (strip (replace_tab l))))
               (enumerate t0 (data_lines ls)))"

text \<open>The hierarchy section of a file: the lines up to and including the marker.\<close>

fun hierarchy_section :: "string list \<Rightarrow> string list" where
  "hierarchy_section [] = []"
| "hierarchy_section (l # ls) = l # (if contains l ''MOTION'' then [] else hierarchy_section ls)"

text \<open>The channel count \<open>n\<close> that a \<open>CHANNELS\<close> line declares.\<close>

definition declared_count :: "'f env \<Rightarrow> string \<Rightarrow> nat" where
  "declared_count env l = nat (the (pyint env (space_re_split (strip (replace_tab l)) ! 1)))"

text \<open>
  The bindings of a \<open>CHANNELS\<close> line with tokens \<open>chan\<close> under a node: for each of the
  \<open>n\<close> channel names, the node's full path and the attribute of the fixed table.
\<close>

definition channel_entries :: "TinyDAG option \<Rightarrow> string list \<Rightarrow> nat \<Rightarrow> string list" where
  "channel_entries node chan n =
     map (\<lambda>i. full_path (the node) @ ''.'' @ the (translationDict (chan ! (2 + i)))) [0..<n]"

text \<open>
  In a well-formed file a closing brace stands on a line of its own: no line has both a
  brace and one of the keywords that the End Site's \<open>continue\<close> would skip.
\<close>

definition brace_separate :: "string \<Rightarrow> bool" where
  "brace_separate l = (contains l ''}'' \<longrightarrow> \<not> contains l ''CHANNELS'' \<and> \<not> contains l ''MOTION'')"

text \<open>
  A file with a joint \<open>B\<close> under the root \<open>A\<close> and an End Site under \<open>B\<close>, and the importer
  on it.
\<close>

definition tip_bvh :: "string list" where
  "tip_bvh =
     [''HIERARCHY\<newline>'',
      ''ROOT A\<newline>'',
      ''{\<newline>'',
      ''OFFSET 1 2 3\<newline>'',
      ''CHANNELS 3 Zrotation Xrotation Yrotation\<newline>'',
      ''JOINT B\<newline>'',
      ''{\<newline>'',
      ''OFFSET 0 1 0\<newline>'',
      ''CHANNELS 3 Zrotation Xrotation Yrotation\<newline>'',
      ''End Site\<newline>'',
      ''{\<newline>'',
      ''OFFSET 0 0 5\<newline>'',
      ''}\<newline>'',
      ''}\<newline>'',
      ''}\<newline>'',
      ''MOTION\<newline>'',
      ''Frames: 0\<newline>'',
      ''Frame Time: 0.033333\<newline>'']"

definition tip_files :: "string \<Rightarrow> fs_entry option" where
  "tip_files = [''tip.bvh'' \<mapsto> RegularFile tip_bvh]"

definition tip_fresh :: "int state" where
  "tip_fresh =
     \<lparr>self_data = Some tip_bvh, self_scale = 1, self_channels = [],
      self_root_node = None, self_root_node_full_path = None,
      self_file_path = Some ''tip.bvh'', safe_close = False, motion = False, frame = 0,
      my_parent = None, jnt = None, calls = []\<rparr>"




text \<open>The names of the joints a command list creates, and its keyframes.\<close>

fun joint_names :: "'f mc_call list \<Rightarrow> string list" where
  "joint_names [] = []"
| "joint_names (Joint n # cs) = n # joint_names cs"
| "joint_names (c # cs) = joint_names cs"


text \<open>What the import of the End Site file leaves behind in the reference scene.\<close>

definition tip_imported :: "int state" where
  "tip_imported =
     tip_fresh
       \<lparr>self_channels :=
          [''_mocap_tip_bvh_grp|A.rotateZ'', ''_mocap_tip_bvh_grp|A.rotateX'',
           ''_mocap_tip_bvh_grp|A.rotateY'', ''_mocap_tip_bvh_grp|A|B.rotateZ'',
           ''_mocap_tip_bvh_grp|A|B.rotateX'', ''_mocap_tip_bvh_grp|A|B.rotateY''],
        self_root_node :=
          Some (TinyDAG (ObjStr ''A'') (Some (TinyDAG (ObjStr ''_mocap_tip_bvh_grp'') None))),
        self_root_node_full_path := Some ''_mocap_tip_bvh_grp|A'',
        motion := True,
        my_parent := Some (TinyDAG (ObjStr ''_mocap_tip_bvh_grp'') None),
        jnt := Some (PStr ''_mocap_tip_bvh_grp|A|B''),
        calls :=
          [Group ''_mocap_tip.bvh_grp'',
           SetAttr (PStr ''_mocap_tip_bvh_grp'') ''scale'' [AFloat 1, AFloat 1, AFloat 1] None,
           Joint ''A'',
           SetAttr (PStr ''A'') ''translate'' [AFloat 1, AFloat 2, AFloat 3] (Some ''double3''),
           SetAttr (PStr ''A'') ''rotateOrder'' [AInt 4] None,
           Joint ''B'',
           SetAttr (PStr ''B'') ''translate'' [AFloat 0, AFloat 1, AFloat 0] (Some ''double3''),
           SetAttr (PStr ''B'') ''rotateOrder'' [AInt 4] None,
           SetAttr (PStr ''_mocap_tip_bvh_grp|A|B'') ''translate''
             [AFloat 0, AFloat 0, AFloat 5] (Some ''double3''),
           Select ''_mocap_tip_bvh_grp|A'' False,
           Select ''_mocap_tip_bvh_grp'' False]\<rparr>"


text \<open>A command that sets a rotation order.\<close>

fun is_rotate_order :: "'f mc_call \<Rightarrow> bool" where
  "is_rotate_order (SetAttr v a args typ) = (a = ''rotateOrder'')"
| "is_rotate_order c = False"






text \<open>
  The names on the way from a node up to its topmost ancestor, \<open>str\<close> of each \<open>obj\<close>;
  two current nodes that agree up to a topmost ancestor \<open>g\<close>; and two states of the
  loop that agree on the flags, on the frame, and up to \<open>g\<close> on the current node and on
  the channel table.
\<close>

fun chain :: "TinyDAG \<Rightarrow> string list" where
  "chain (TinyDAG ob None) = [str_obj ob]"
| "chain (TinyDAG ob (Some p)) = str_obj ob # chain p"

definition node_chain :: "TinyDAG option \<Rightarrow> string list" where
  "node_chain n = (case n of None \<Rightarrow> [] | Some p \<Rightarrow> chain p)"




section \<open>Properties\<close>

subsection \<open>Auxiliary facts\<close>

lemma issue_simps [simp]:
  "calls (issue c s) = calls s @ [c]"
  "self_channels (issue c s) = self_channels s"
  "frame (issue c s) = frame s"
  "motion (issue c s) = motion s"
  "safe_close (issue c s) = safe_close s"
  "my_parent (issue c s) = my_parent s"
  "jnt (issue c s) = jnt s"
  "self_root_node (issue c s) = self_root_node s"
  "self_root_node_full_path (issue c s) = self_root_node_full_path s"
  "self_data (issue c s) = self_data s"
  "self_scale (issue c s) = self_scale s"
  "self_file_path (issue c s) = self_file_path s"
  by (simp_all add: issue_def)

lemma list_index_None: "list_index xs x = None \<longleftrightarrow> x \<notin> set xs"
  by (induction xs) auto

lemma list_index_Some: "list_index xs x = Some k \<Longrightarrow> k < length xs \<and> xs ! k = x"
  by (induction xs arbitrary: k) (auto split: if_splits)

lemma strip_nonblank:
  assumes "\<not> is_space c"
  shows "strip (c # r) \<noteq> []"
proof -
  have "dropWhile is_space (rev (c # r)) \<noteq> []"
    using assms by (simp add: dropWhile_eq_Nil_conv)
  then have ne: "rstrip (c # r) \<noteq> []"
    by (simp add: rstrip_def)
  have "\<not> is_space (hd (dropWhile is_space (rev (c # r))))"
    using \<open>dropWhile is_space (rev (c # r)) \<noteq> []\<close> hd_dropWhile by blast
  then have "\<not> is_space (last (rstrip (c # r)))"
    using \<open>dropWhile is_space (rev (c # r)) \<noteq> []\<close>
    by (simp add: rstrip_def last_rev)
  then have "\<exists>x\<in>set (rstrip (c # r)). \<not> is_space x"
    using ne last_in_set by blast
  then show ?thesis
    by (simp add: strip_def dropWhile_eq_Nil_conv)
qed

lemma blank_not_HIERARCHY: "blank l \<Longrightarrow> \<not> startswith l ''HIERARCHY''"
proof
  assume b: "blank l" and h: "startswith l ''HIERARCHY''"
  from h obtain r where "l = CHR ''H'' # r"
    by (cases l) (auto simp: startswith_def)
  moreover have "\<not> is_space CHR ''H''"
    by (simp add: is_space_def)
  ultimately show False
    using b strip_nonblank by (simp add: blank_def)
qed

subsection \<open>The constructor's two checks\<close>

text \<open>
  C6. Construction fails with \<open>File does not exist on disk\<close> when the cleaned path is
  not on disk, and with \<open>No valid bvh file was loaded\<close> when the first non-blank line of
  the file does not start with \<open>HIERARCHY\<close>; in both cases the scene has received no
  command beyond those it had before.
\<close>

theorem construction_fails_before_scene:
  "(fs env (cleanPath path) = None \<longrightarrow>
      (\<exists>s. new_ImportBVH env path scale cs = Inl (Exception ''File does not exist on disk'', s)
           \<and> calls s = cs))
   \<and> (\<forall>lines l. fs env (cleanPath path) = Some (RegularFile lines)
         \<and> find (\<lambda>l. \<not> blank l) lines = Some l \<and> \<not> startswith l ''HIERARCHY'' \<longrightarrow>
      (\<exists>s. new_ImportBVH env path scale cs = Inl (Exception ''No valid bvh file was loaded'', s)
           \<and> calls s = cs))"
proof (intro conjI allI impI)
  assume "fs env (cleanPath path) = None"
  then show "\<exists>s. new_ImportBVH env path scale cs = Inl (Exception ''File does not exist on disk'', s)
           \<and> calls s = cs"
    by (simp add: new_ImportBVH_def)
next
  fix lines l
  assume a: "fs env (cleanPath path) = Some (RegularFile lines)
         \<and> find (\<lambda>l. \<not> blank l) lines = Some l \<and> \<not> startswith l ''HIERARCHY''"
  then obtain l0 rest where lines: "lines = l0 # rest"
    by (cases lines) auto
  have "\<not> startswith l0 ''HIERARCHY''"
  proof (cases "blank l0")
    case True
    then show ?thesis by (rule blank_not_HIERARCHY)
  next
    case False
    with a lines have "l = l0" by simp
    with a show ?thesis by simp
  qed
  with a lines
  show "\<exists>s. new_ImportBVH env path scale cs = Inl (Exception ''No valid bvh file was loaded'', s)
           \<and> calls s = cs"
    by (simp add: new_ImportBVH_def getData_def)
qed


theorem construction_fails_before_scene_witness:
  "(fs (demo_env blank_files) (cleanPath ''none.bvh'') = None \<and>
      (\<exists>s. new_ImportBVH (demo_env blank_files) ''none.bvh'' 1 [] =
              Inl (Exception ''File does not exist on disk'', s) \<and> calls s = []))
   \<and> (fs (demo_env blank_files) (cleanPath ''bad.bvh'')
         = Some (RegularFile [[CHR 0x0A], ''MOTION'' @ [CHR 0x0A]])
       \<and> find (\<lambda>l. \<not> blank l) [[CHR 0x0A], ''MOTION'' @ [CHR 0x0A]] = Some (''MOTION'' @ [CHR 0x0A])
       \<and> \<not> startswith (''MOTION'' @ [CHR 0x0A]) ''HIERARCHY''
       \<and> (\<exists>s. new_ImportBVH (demo_env blank_files) ''bad.bvh'' 1 [] =
              Inl (Exception ''No valid bvh file was loaded'', s) \<and> calls s = []))"
proof -
  have f1: "fs (demo_env blank_files) (cleanPath ''none.bvh'') = None"
    by (simp add: demo_env_def blank_files_def cleanPath_def)
  have f2: "fs (demo_env blank_files) (cleanPath ''bad.bvh'')
         = Some (RegularFile [[CHR 0x0A], ''MOTION'' @ [CHR 0x0A]])"
    by (simp add: demo_env_def blank_files_def cleanPath_def)
  have f3: "find (\<lambda>l. \<not> blank l) [[CHR 0x0A], ''MOTION'' @ [CHR 0x0A]] = Some (''MOTION'' @ [CHR 0x0A])"
    by (simp add: blank_def strip_def rstrip_def is_space_def)
  have f4: "\<not> startswith (''MOTION'' @ [CHR 0x0A]) ''HIERARCHY''"
    by (simp add: startswith_def)
  show ?thesis
    using construction_fails_before_scene [of "demo_env blank_files" "''none.bvh''" 1 "[]"]
      construction_fails_before_scene [of "demo_env blank_files" "''bad.bvh''" 1 "[]"]
      f1 f2 f3 f4
    by blast
qed

subsection \<open>The rotation order of a CHANNELS line\<close>

lemma strip_rotation [simp]: "replace_del ''rotation'' (a # ''rotation'') = [a]"
  by (simp add: startswith_def)

lemma axis_of_last3:
  "axis_of (pre @ [x, y, z]) =
     replace_del ''rotation'' z @ replace_del ''rotation'' y @ replace_del ''rotation'' x"
  by (simp add: axis_of_def del: replace_del.simps)

lemma rotation_orders_index:
  "map (list_index rotation_orders) [''XYZ'', ''YZX'', ''ZXY'', ''XZY'', ''YXZ'', ''ZYX'']
     = [Some 0, Some 1, Some 2, Some 3, Some 4, Some 5]"
  by (simp add: rotation_orders_def)

lemma line_channels_Inr:
  assumes "line_channels env line s = Inr s'" and "contains line ''CHANNELS''"
  shows "\<exists>k v n cs. list_index rotation_orders (axis_of (space_re_split (strip line))) = Some k
          \<and> jnt s = Some v
          \<and> pyint env (space_re_split (strip line) ! 1) = Some n
          \<and> append_channels (my_parent s) (space_re_split (strip line)) [0..<nat n] (self_channels s) = Inr cs
          \<and> s' = issue (SetAttr v ''rotateOrder'' [AInt (int k)] None) (s\<lparr>self_channels := cs\<rparr>)"
  using assms
  by (auto simp: line_channels_def Let_def split: option.splits if_splits sum.splits prod.splits)

text \<open>
  C2. The rotation-order table maps \<open>XYZ, YZX, ZXY, XZY, YXZ, ZYX\<close> to \<open>0..5\<close>. The axis
  string of a \<open>CHANNELS\<close> line is made of its last three tokens without \<open>rotation\<close>, in
  reverse order, so three tokens \<open>a\<close>rotation \<open>b\<close>rotation \<open>c\<close>rotation give \<open>cba\<close>, and
  \<open>Zrotation Xrotation Yrotation\<close> gives \<open>YXZ\<close>, code 4. An axis string outside the table
  raises the lookup error before anything else is done, and a line that is processed
  sets the code that the table gives for its axis string.
\<close>

theorem rotation_order_derivation:
  "map (list_index rotation_orders) [''XYZ'', ''YZX'', ''ZXY'', ''XZY'', ''YXZ'', ''ZYX'']
     = [Some 0, Some 1, Some 2, Some 3, Some 4, Some 5]
   \<and> axis_of (pre @ [a # ''rotation'', b # ''rotation'', c # ''rotation'']) = [c, b, a]
   \<and> axis_of (pre @ [''Zrotation'', ''Xrotation'', ''Yrotation'']) = ''YXZ''
   \<and> list_index rotation_orders ''YXZ'' = Some 4
   \<and> (contains line ''CHANNELS'' \<and> axis_of (space_re_split (strip line)) \<notin> set rotation_orders
        \<longrightarrow> line_channels env line s = Inl (ValueError, s))
   \<and> (\<forall>s'. contains line ''CHANNELS'' \<and> line_channels env line s = Inr s' \<longrightarrow>
        (\<exists>k v. list_index rotation_orders (axis_of (space_re_split (strip line))) = Some k
              \<and> k < 6 \<and> rotation_orders ! k = axis_of (space_re_split (strip line))
              \<and> calls s' = calls s @ [SetAttr v ''rotateOrder'' [AInt (int k)] None]))"
proof (intro conjI allI impI)
  show "map (list_index rotation_orders) [''XYZ'', ''YZX'', ''ZXY'', ''XZY'', ''YXZ'', ''ZYX'']
     = [Some 0, Some 1, Some 2, Some 3, Some 4, Some 5]"
    by (rule rotation_orders_index)
  show "axis_of (pre @ [a # ''rotation'', b # ''rotation'', c # ''rotation'']) = [c, b, a]"
    by (simp only: axis_of_last3 strip_rotation) simp
  show "axis_of (pre @ [''Zrotation'', ''Xrotation'', ''Yrotation'']) = ''YXZ''"
    by (simp only: axis_of_last3 strip_rotation) simp
  show "list_index rotation_orders ''YXZ'' = Some 4"
    by (simp add: rotation_orders_def)
next
  assume "contains line ''CHANNELS'' \<and> axis_of (space_re_split (strip line)) \<notin> set rotation_orders"
  then show "line_channels env line s = Inl (ValueError, s)"
    by (simp add: line_channels_def list_index_None [symmetric])
next
  fix s'
  assume a: "contains line ''CHANNELS'' \<and> line_channels env line s = Inr s'"
  then obtain k v cs where k: "list_index rotation_orders (axis_of (space_re_split (strip line))) = Some k"
    and s': "s' = issue (SetAttr v ''rotateOrder'' [AInt (int k)] None) (s\<lparr>self_channels := cs\<rparr>)"
    using line_channels_Inr by blast
  from list_index_Some [OF k] have "k < 6" "rotation_orders ! k = axis_of (space_re_split (strip line))"
    by (simp_all add: rotation_orders_def)
  with k s'
  show "\<exists>k v. list_index rotation_orders (axis_of (space_re_split (strip line))) = Some k
              \<and> k < 6 \<and> rotation_orders ! k = axis_of (space_re_split (strip line))
              \<and> calls s' = calls s @ [SetAttr v ''rotateOrder'' [AInt (int k)] None]"
    by simp
qed

theorem rotation_order_derivation_witness:
  "(contains ''CHANNELS 3 Xposition Yposition Zposition'' ''CHANNELS''
      \<and> axis_of (space_re_split (strip ''CHANNELS 3 Xposition Yposition Zposition''))
          \<notin> set rotation_orders
      \<and> line_channels (demo_env hip_files) ''CHANNELS 3 Xposition Yposition Zposition'' hip_state
          = Inl (ValueError, hip_state))
   \<and> (contains ''CHANNELS 3 Zrotation Xrotation Yrotation'' ''CHANNELS''
      \<and> line_channels (demo_env hip_files) ''CHANNELS 3 Zrotation Xrotation Yrotation'' hip_state
          = Inr (issue (SetAttr (PStr ''Hip'') ''rotateOrder'' [AInt 4] None)
                  (hip_state\<lparr>self_channels :=
                     [''grp|Hip.rotateZ'', ''grp|Hip.rotateX'', ''grp|Hip.rotateY'']\<rparr>))
      \<and> (\<exists>k v. list_index rotation_orders
                  (axis_of (space_re_split (strip ''CHANNELS 3 Zrotation Xrotation Yrotation'')))
                  = Some k
              \<and> k < 6
              \<and> rotation_orders ! k
                  = axis_of (space_re_split (strip ''CHANNELS 3 Zrotation Xrotation Yrotation''))
              \<and> calls (issue (SetAttr (PStr ''Hip'') ''rotateOrder'' [AInt 4] None)
                  (hip_state\<lparr>self_channels :=
                     [''grp|Hip.rotateZ'', ''grp|Hip.rotateX'', ''grp|Hip.rotateY'']\<rparr>))
                  = calls hip_state @ [SetAttr v ''rotateOrder'' [AInt (int k)] None]))"
proof -
  have h1: "contains ''CHANNELS 3 Xposition Yposition Zposition'' ''CHANNELS''
      \<and> axis_of (space_re_split (strip ''CHANNELS 3 Xposition Yposition Zposition''))
          \<notin> set rotation_orders"
    by code_simp
  have h2: "contains ''CHANNELS 3 Zrotation Xrotation Yrotation'' ''CHANNELS''
      \<and> line_channels (demo_env hip_files) ''CHANNELS 3 Zrotation Xrotation Yrotation'' hip_state
          = Inr (issue (SetAttr (PStr ''Hip'') ''rotateOrder'' [AInt 4] None)
                  (hip_state\<lparr>self_channels :=
                     [''grp|Hip.rotateZ'', ''grp|Hip.rotateX'', ''grp|Hip.rotateY'']\<rparr>))"
    by code_simp
  show ?thesis
    using rotation_order_derivation
            [where line = "''CHANNELS 3 Xposition Yposition Zposition''"
               and env = "demo_env hip_files" and s = hip_state]
          rotation_order_derivation
            [where line = "''CHANNELS 3 Zrotation Xrotation Yrotation''"
               and env = "demo_env hip_files" and s = hip_state]
          h1 h2
    by blast
qed


subsection \<open>A motion line against the channel table\<close>

lemma set_keyframes_ok:
  "k + length toks \<le> length (self_channels s) \<Longrightarrow> \<forall>t\<in>set toks. pyfloat env t \<noteq> None \<Longrightarrow>
   set_keyframes env toks k s =
     Inr (s\<lparr>calls := calls s @
           map (\<lambda>i. SetKeyframe (self_channels s ! (k + i)) (frame s) (the (pyfloat env (toks ! i))))
             [0..<length toks]\<rparr>)"
proof (induction toks arbitrary: k s)
  case Nil
  then show ?case by simp
next
  case (Cons t toks)
  from Cons.prems obtain x where x: "pyfloat env t = Some x" by auto
  have "set_keyframes env (t # toks) k s =
          set_keyframes env toks (Suc k) (issue (SetKeyframe (self_channels s ! k) (frame s) x) s)"
    using Cons.prems x by simp
  also have "\<dots> = Inr ((issue (SetKeyframe (self_channels s ! k) (frame s) x) s)
       \<lparr>calls := (calls s @ [SetKeyframe (self_channels s ! k) (frame s) x]) @
           map (\<lambda>i. SetKeyframe (self_channels s ! (Suc k + i)) (frame s) (the (pyfloat env (toks ! i))))
             [0..<length toks]\<rparr>)"
    using Cons.prems by (subst Cons.IH) simp_all
  also have "\<dots> = Inr (s\<lparr>calls := calls s @
           map (\<lambda>i. SetKeyframe (self_channels s ! (k + i)) (frame s) (the (pyfloat env ((t # toks) ! i))))
             [0..<length (t # toks)]\<rparr>)"
    using x by (simp add: issue_def map_upt_Suc del: upt_Suc)
  finally show ?case .
qed

lemma set_keyframes_overflow:
  "k \<le> length (self_channels s) \<Longrightarrow> length (self_channels s) < k + length toks \<Longrightarrow>
   \<forall>i. k + i < length (self_channels s) \<longrightarrow> pyfloat env (toks ! i) \<noteq> None \<Longrightarrow>
   \<exists>s'. set_keyframes env toks k s = Inl (IndexError, s')"
proof (induction toks arbitrary: k s)
  case Nil
  then show ?case by simp
next
  case (Cons t toks)
  show ?case
  proof (cases "k < length (self_channels s)")
    case False
    then show ?thesis by simp
  next
    case True
    with Cons.prems(3) [rule_format, of 0] obtain x where x: "pyfloat env t = Some x" by auto
    let ?s1 = "issue (SetKeyframe (self_channels s ! k) (frame s) x) s"
    have "\<forall>i. Suc k + i < length (self_channels ?s1) \<longrightarrow> pyfloat env (toks ! i) \<noteq> None"
      using Cons.prems(3) [rule_format, of "Suc i" for i] by simp
    then have "\<exists>s'. set_keyframes env toks (Suc k) ?s1 = Inl (IndexError, s')"
      using Cons.prems True by (intro Cons.IH) simp_all
    then show ?thesis using True x by simp
  qed
qed

text \<open>
  C5. In the motion section, a data line with more tokens than the channel table has
  entries raises IndexError when the table is indexed (the tokens before that point
  being numeric); a data line of numeric tokens no longer than the table raises nothing,
  sets one keyframe per token on the first entries of the table and none on the
  trailing ones, and advances the frame.
\<close>

theorem motion_line_token_count:
  assumes "motion s" and "\<not> contains (replace_tab l) ''Frame''"
    and "toks = space_re_split (strip (replace_tab l))"
  shows "(length (self_channels s) < length toks
            \<and> (\<forall>i<length (self_channels s). pyfloat env (toks ! i) \<noteq> None)
          \<longrightarrow> (\<exists>s'. read_line env s l = Inl (IndexError, s')))
       \<and> (length toks \<le> length (self_channels s) \<and> (\<forall>t\<in>set toks. pyfloat env t \<noteq> None)
          \<longrightarrow> read_line env s l =
                Inr (s\<lparr>calls := calls s @ keyframe_calls env (self_channels s) (frame s) toks,
                       frame := frame s + 1\<rparr>))"
proof (intro conjI impI)
  assume a: "length (self_channels s) < length toks
            \<and> (\<forall>i<length (self_channels s). pyfloat env (toks ! i) \<noteq> None)"
  then have "\<exists>s'. set_keyframes env toks 0 s = Inl (IndexError, s')"
    by (intro set_keyframes_overflow) simp_all
  then show "\<exists>s'. read_line env s l = Inl (IndexError, s')"
    using assms by (auto simp: read_line_def line_frame_def)
next
  assume a: "length toks \<le> length (self_channels s) \<and> (\<forall>t\<in>set toks. pyfloat env t \<noteq> None)"
  then have "set_keyframes env toks 0 s =
     Inr (s\<lparr>calls := calls s @ keyframe_calls env (self_channels s) (frame s) toks\<rparr>)"
    using set_keyframes_ok [of 0 toks s env] by (simp add: keyframe_calls_def)
  then show "read_line env s l =
                Inr (s\<lparr>calls := calls s @ keyframe_calls env (self_channels s) (frame s) toks,
                       frame := frame s + 1\<rparr>)"
    using assms by (simp add: read_line_def line_frame_def)
qed

theorem motion_line_token_count_witness:
  "motion hip_motion_state
   \<and> \<not> contains (replace_tab ''1 2 3'') ''Frame''
   \<and> [''1'', ''2'', ''3''] = space_re_split (strip (replace_tab ''1 2 3''))
   \<and> length (self_channels hip_motion_state) < length [''1'', ''2'', ''3'']
   \<and> list_all (\<lambda>t. pyfloat (demo_env hip_files) t \<noteq> None)
         (take (length (self_channels hip_motion_state)) [''1'', ''2'', ''3''])
   \<and> (\<exists>s'. read_line (demo_env hip_files) hip_motion_state ''1 2 3'' = Inl (IndexError, s'))
   \<and> \<not> contains (replace_tab ''7'') ''Frame''
   \<and> [''7''] = space_re_split (strip (replace_tab ''7''))
   \<and> length [''7''] \<le> length (self_channels hip_motion_state)
   \<and> list_all (\<lambda>t. pyfloat (demo_env hip_files) t \<noteq> None) [''7'']
   \<and> read_line (demo_env hip_files) hip_motion_state ''7'' =
        Inr (hip_motion_state
              \<lparr>calls := calls hip_motion_state @
                 keyframe_calls (demo_env hip_files) (self_channels hip_motion_state)
                   (frame hip_motion_state) [''7''],
               frame := frame hip_motion_state + 1\<rparr>)"
proof -
  have m: "motion hip_motion_state"
    by (simp add: hip_motion_state_def)
  have a1: "\<not> contains (replace_tab ''1 2 3'') ''Frame''"
    and a2: "[''1'', ''2'', ''3''] = space_re_split (strip (replace_tab ''1 2 3''))"
    and b1: "\<not> contains (replace_tab ''7'') ''Frame''"
    and b2: "[''7''] = space_re_split (strip (replace_tab ''7''))"
    by code_simp+
  have a3: "length (self_channels hip_motion_state) < length [''1'', ''2'', ''3'']
     \<and> (\<forall>i<length (self_channels hip_motion_state).
         pyfloat (demo_env hip_files) ([''1'', ''2'', ''3''] ! i) \<noteq> None)"
    by (simp add: hip_motion_state_def demo_env_def read_number_def less_Suc_eq)
  have b3: "length [''7''] \<le> length (self_channels hip_motion_state)
     \<and> (\<forall>t\<in>set [''7'']. pyfloat (demo_env hip_files) t \<noteq> None)"
    by (simp add: hip_motion_state_def demo_env_def read_number_def)
  have a4: "list_all (\<lambda>t. pyfloat (demo_env hip_files) t \<noteq> None)
         (take (length (self_channels hip_motion_state)) [''1'', ''2'', ''3''])"
    and b4: "list_all (\<lambda>t. pyfloat (demo_env hip_files) t \<noteq> None) [''7'']"
    by (simp_all add: hip_motion_state_def demo_env_def read_number_def)
  show ?thesis
    using motion_line_token_count [OF m a1 a2, of "demo_env hip_files"]
          motion_line_token_count [OF m b1 b2, of "demo_env hip_files"]
          m a1 a2 a3 a4 b1 b2 b3 b4
    by blast
qed


subsection \<open>The clear-animation pass\<close>

lemma delete_inputs_eq:
  "delete_inputs env node attrs s =
     s\<lparr>calls := foldl (\<lambda>cs attr. case listConnections env cs (node @ ''.'' @ attr) of
                        None \<Rightarrow> cs | Some conns \<Rightarrow> cs @ [Delete conns]) (calls s) attrs\<rparr>"
  by (induction attrs arbitrary: s) (auto split: option.splits simp: issue_def)

lemma reset_rotation_eq:
  "reset_rotation node attrs s =
     s\<lparr>calls := calls s @ map (\<lambda>attr. SetAttr (PStr node) attr [AInt 0] None) attrs\<rparr>"
  by (induction attrs arbitrary: s) (auto simp: issue_def)

lemma clear_node_frame:
  "reset_rotation node rot_attrs (delete_inputs env node (trans_attrs @ rot_attrs) s)
     = s\<lparr>calls := spec_clear_node env (calls s) node\<rparr>"
  by (simp only: reset_rotation_eq delete_inputs_eq spec_clear_node_def trans_attrs_def rot_attrs_def)
     simp

lemma clear_nodes_eq:
  "clear_nodes env nodes s = s\<lparr>calls := foldl (spec_clear_node env) (calls s) nodes\<rparr>"
proof (induction nodes arbitrary: s)
  case Nil
  then show ?case by simp
next
  case (Cons n nodes)
  show ?case
    by (simp only: clear_nodes.simps clear_node_frame Cons.IH) simp
qed







subsection \<open>Tab replacement leaves the keywords alone\<close>

lemma map_fix_eq: "\<forall>c. f c \<in> set p \<longrightarrow> f c = c \<Longrightarrow> map f t = p \<Longrightarrow> t = p"
  by (induction t arbitrary: p) auto

lemma startswith_map:
  assumes "\<forall>c\<in>set p. f c = c" and "\<forall>c. f c \<in> set p \<longrightarrow> f c = c"
  shows "startswith (map f s) p = startswith s p"
proof
  assume "startswith (map f s) p"
  then have "map f (take (length p) s) = p"
    by (simp add: startswith_def take_map)
  then show "startswith s p"
    using assms(2) map_fix_eq startswith_def by blast
next
  assume "startswith s p"
  then have "take (length p) s = p" by (simp add: startswith_def)
  moreover have "map f p = p" using assms(1) by (simp add: map_idI)
  ultimately show "startswith (map f s) p"
    by (metis startswith_def take_map)
qed

lemma contains_map:
  assumes "\<forall>c\<in>set p. f c = c" and "\<forall>c. f c \<in> set p \<longrightarrow> f c = c"
  shows "contains (map f s) p = contains s p"
proof (induction s)
  case Nil
  then show ?case by simp
next
  case (Cons c cs)
  have "startswith (map f (c # cs)) p = startswith (c # cs) p"
    using assms by (rule startswith_map)
  with Cons show ?case by simp
qed

lemma contains_replace_tab:
  assumes "CHR 0x09 \<notin> set p" and "CHR '' '' \<notin> set p"
  shows "contains (replace_tab s) p = contains s p"
  unfolding replace_tab_def
  using assms by (intro contains_map) auto

lemma keyword_tab [simp]:
  "contains (replace_tab s) ''Frame'' = contains s ''Frame''"
  "contains (replace_tab s) ''MOTION'' = contains s ''MOTION''"
  "contains (replace_tab s) ''CHANNELS'' = contains s ''CHANNELS''"
  "contains (replace_tab s) ''JOINT'' = contains s ''JOINT''"
  "contains (replace_tab s) ''OFFSET'' = contains s ''OFFSET''"
  "contains (replace_tab s) ''}'' = contains s ''}''"
  by (simp_all add: contains_replace_tab)

lemma startswith_ROOT_tab [simp]:
  "startswith (replace_tab s) ''ROOT'' = startswith s ''ROOT''"
  unfolding replace_tab_def by (intro startswith_map) auto

subsection \<open>What each check of the loop body changes\<close>

lemma line_root_fields [simp]:
  "self_channels (line_root l s) = self_channels s"
  "frame (line_root l s) = frame s"
  "motion (line_root l s) = motion s"
  "safe_close (line_root l s) = safe_close s"
  "calls (line_root l s) = calls s"
  "jnt (line_root l s) = jnt s"
  by (simp_all add: line_root_def Let_def split: option.splits)

lemma line_joint_Inr:
  assumes "line_joint l s = Inr s2"
  shows "self_channels s2 = self_channels s \<and> frame s2 = frame s \<and> motion s2 = motion s
       \<and> safe_close s2 = safe_close s \<and> calls s2 = calls s
       \<and> self_root_node s2 = self_root_node s
       \<and> self_root_node_full_path s2 = self_root_node_full_path s
       \<and> (if contains l ''JOINT''
          then jnt s2 = Some (PList (space_re_split (strip l)))
             \<and> 1 < length (space_re_split (strip l))
             \<and> my_parent s2 = Some (TinyDAG (ObjStr (space_re_split (strip l) ! 1)) (my_parent s))
          else s2 = s)"
  using assms by (auto simp: line_joint_def Let_def split: if_splits)

lemma line_end_site_fields [simp]:
  "self_channels (line_end_site l s) = self_channels s"
  "frame (line_end_site l s) = frame s"
  "motion (line_end_site l s) = motion s"
  "calls (line_end_site l s) = calls s"
  "jnt (line_end_site l s) = jnt s"
  "my_parent (line_end_site l s) = my_parent s"
  "self_root_node (line_end_site l s) = self_root_node s"
  "self_root_node_full_path (line_end_site l s) = self_root_node_full_path s"
  "safe_close (line_end_site l s) = (safe_close s \<or> contains l ''End Site'')"
  by (simp_all add: line_end_site_def)

lemma ascend_fields [simp]:
  "self_channels (ascend s) = self_channels s"
  "frame (ascend s) = frame s"
  "motion (ascend s) = motion s"
  "safe_close (ascend s) = safe_close s"
  "jnt (ascend s) = jnt s"
  "self_root_node (ascend s) = self_root_node s"
  "self_root_node_full_path (ascend s) = self_root_node_full_path s"
  by (simp_all add: ascend_def split: option.splits)

lemma append_channels_Inr:
  "append_channels mp chan is cs = Inr cs' \<Longrightarrow>
     cs' = cs @ map (\<lambda>i. full_path (the mp) @ ''.'' @ the (translationDict (chan ! (2 + i)))) is
     \<and> (is \<noteq> [] \<longrightarrow> mp \<noteq> None)
     \<and> (\<forall>i\<in>set is. 2 + i < length chan \<and> translationDict (chan ! (2 + i)) \<noteq> None)"
proof (induction "is" arbitrary: cs)
  case Nil
  then show ?case by simp
next
  case (Cons i "is")
  from Cons.prems obtain p a where mp: "mp = Some p" and i: "2 + i < length chan"
    and a: "translationDict (chan ! (2 + i)) = Some a"
    and rest: "append_channels mp chan is (cs @ [full_path p @ ''.'' @ a]) = Inr cs'"
    by (auto split: option.splits if_splits)
  from Cons.IH [OF rest] mp i a show ?case by simp
qed

lemma line_channels_fields:
  assumes "line_channels env l s = Inr s5"
  shows "frame s5 = frame s \<and> motion s5 = motion s \<and> safe_close s5 = safe_close s
       \<and> jnt s5 = jnt s \<and> my_parent s5 = my_parent s
       \<and> self_root_node s5 = self_root_node s
       \<and> self_root_node_full_path s5 = self_root_node_full_path s
       \<and> (if contains l ''CHANNELS''
          then (\<exists>n. 1 < length (space_re_split (strip l))
                 \<and> pyint env (space_re_split (strip l) ! 1) = Some n
                 \<and> self_channels s5 = self_channels s
                      @ channel_entries (my_parent s) (space_re_split (strip l)) (nat n)
                 \<and> (0 < nat n \<longrightarrow> my_parent s \<noteq> None)
                 \<and> (\<forall>i<nat n. translationDict (space_re_split (strip l) ! (2 + i)) \<noteq> None))
          else s5 = s)"
proof (cases "contains l ''CHANNELS''")
  case False
  with assms show ?thesis by (simp add: line_channels_def)
next
  case True
  from line_channels_Inr [OF assms True] obtain k v n cs where
    n: "pyint env (space_re_split (strip l) ! 1) = Some n"
    and ap: "append_channels (my_parent s) (space_re_split (strip l)) [0..<nat n] (self_channels s) = Inr cs"
    and s5: "s5 = issue (SetAttr v ''rotateOrder'' [AInt (int k)] None) (s\<lparr>self_channels := cs\<rparr>)"
    by blast
  have len: "1 < length (space_re_split (strip l))"
    using assms True by (auto simp: line_channels_def Let_def split: option.splits if_splits)
  from append_channels_Inr [OF ap] n s5 len True show ?thesis
    by (auto simp: channel_entries_def)
qed

lemma line_offset_fields:
  assumes "line_offset env l s = Inr s6"
  shows "frame s6 = frame s \<and> motion s6 = motion s \<and> safe_close s6 = safe_close s
       \<and> self_channels s6 = self_channels s \<and> my_parent s6 = my_parent s
       \<and> self_root_node s6 = self_root_node s
       \<and> self_root_node_full_path s6 = self_root_node_full_path s
       \<and> (if contains l ''OFFSET'' then (\<exists>r. jnt s6 = Some (PStr r)) \<and> my_parent s \<noteq> None
          else s6 = s)"
  using assms
  by (auto simp: line_offset_def Let_def issue_def split: option.splits if_splits)

lemma line_motion_fields [simp]:
  "self_channels (line_motion l s) = self_channels s"
  "frame (line_motion l s) = frame s"
  "calls (line_motion l s) = calls s"
  "jnt (line_motion l s) = jnt s"
  "my_parent (line_motion l s) = my_parent s"
  "safe_close (line_motion l s) = safe_close s"
  "self_root_node (line_motion l s) = self_root_node s"
  "self_root_node_full_path (line_motion l s) = self_root_node_full_path s"
  "motion (line_motion l s) = (motion s \<or> contains l ''MOTION'')"
  by (simp_all add: line_motion_def)

text \<open>The two ways through the hierarchy branch of the loop body.\<close>

lemma read_line_hier_cases:
  assumes "read_line env s l = Inr s'" and "\<not> motion s"
  obtains (skip) s2 where
      "line_joint (replace_tab l) (line_root (replace_tab l) s) = Inr s2"
      "contains l ''}''" "safe_close s2 \<or> contains (replace_tab l) ''End Site''"
      "s' = (line_end_site (replace_tab l) s2)\<lparr>safe_close := False\<rparr>"
  | (go) s2 s5 s6 where
      "line_joint (replace_tab l) (line_root (replace_tab l) s) = Inr s2"
      "\<not> (contains l ''}'' \<and> (safe_close s2 \<or> contains (replace_tab l) ''End Site''))"
      "line_channels env (replace_tab l)
         (if contains l ''}'' then ascend (line_end_site (replace_tab l) s2)
          else line_end_site (replace_tab l) s2) = Inr s5"
      "line_offset env (replace_tab l) s5 = Inr s6"
      "s' = line_motion (replace_tab l) s6"
  using assms
  by (auto simp: read_line_def Let_def split: sum.splits if_splits)


subsection \<open>One iteration of the loop\<close>

lemma read_line_hier:
  assumes "read_line env s l = Inr s'" and "\<not> motion s"
  shows "frame s' = frame s"
    and "motion s' \<longrightarrow> contains l ''MOTION''"
    and "contains l ''MOTION'' \<and> \<not> contains l ''}'' \<longrightarrow> motion s'"
    and "\<not> contains l ''CHANNELS'' \<longrightarrow> self_channels s' = self_channels s"
    and "contains l ''CHANNELS'' \<and> \<not> contains l ''}'' \<longrightarrow>
          (\<exists>n. 1 < length (space_re_split (strip (replace_tab l)))
              \<and> pyint env (space_re_split (strip (replace_tab l)) ! 1) = Some n
              \<and> self_channels s' = self_channels s
                   @ channel_entries (my_parent s') (space_re_split (strip (replace_tab l))) (nat n)
              \<and> (0 < nat n \<longrightarrow> my_parent s' \<noteq> None)
              \<and> (\<forall>i<nat n. translationDict (space_re_split (strip (replace_tab l)) ! (2 + i)) \<noteq> None))"
proof -
  from assms have all: "frame s' = frame s
    \<and> (motion s' \<longrightarrow> contains l ''MOTION'')
    \<and> (contains l ''MOTION'' \<and> \<not> contains l ''}'' \<longrightarrow> motion s')
    \<and> (\<not> contains l ''CHANNELS'' \<longrightarrow> self_channels s' = self_channels s)
    \<and> (contains l ''CHANNELS'' \<and> \<not> contains l ''}'' \<longrightarrow>
          (\<exists>n. 1 < length (space_re_split (strip (replace_tab l)))
              \<and> pyint env (space_re_split (strip (replace_tab l)) ! 1) = Some n
              \<and> self_channels s' = self_channels s
                   @ channel_entries (my_parent s') (space_re_split (strip (replace_tab l))) (nat n)
              \<and> (0 < nat n \<longrightarrow> my_parent s' \<noteq> None)
              \<and> (\<forall>i<nat n. translationDict (space_re_split (strip (replace_tab l)) ! (2 + i)) \<noteq> None)))"
  proof (cases rule: read_line_hier_cases)
    case (skip s2)
    from line_joint_Inr [OF skip(1)] skip(2,4) assms(2) show ?thesis
      by simp
  next
    case (go s2 s5 s6)
    note j = line_joint_Inr [OF go(1)]
    note c = line_channels_fields [OF go(3)]
    note off = line_offset_fields [OF go(4)]
    have f: "frame s' = frame s"
      using j c off go(5) by (simp split: if_splits)
    have m: "motion s' = contains l ''MOTION''"
      using j c off go(5) assms(2) by (simp split: if_splits)
    have ch0: "\<not> contains l ''CHANNELS'' \<longrightarrow> self_channels s' = self_channels s"
      using j c off go(5) by (auto split: if_splits)
    have ch1: "contains l ''CHANNELS'' \<and> \<not> contains l ''}'' \<longrightarrow>
          (\<exists>n. 1 < length (space_re_split (strip (replace_tab l)))
              \<and> pyint env (space_re_split (strip (replace_tab l)) ! 1) = Some n
              \<and> self_channels s' = self_channels s
                   @ channel_entries (my_parent s') (space_re_split (strip (replace_tab l))) (nat n)
              \<and> (0 < nat n \<longrightarrow> my_parent s' \<noteq> None)
              \<and> (\<forall>i<nat n. translationDict (space_re_split (strip (replace_tab l)) ! (2 + i)) \<noteq> None))"
    proof
      assume a: "contains l ''CHANNELS'' \<and> \<not> contains l ''}''"
      with c obtain n where n: "1 < length (space_re_split (strip (replace_tab l)))"
        "pyint env (space_re_split (strip (replace_tab l)) ! 1) = Some n"
        "self_channels s5 = self_channels (line_end_site (replace_tab l) s2)
           @ channel_entries (my_parent (line_end_site (replace_tab l) s2))
               (space_re_split (strip (replace_tab l))) (nat n)"
        "0 < nat n \<longrightarrow> my_parent (line_end_site (replace_tab l) s2) \<noteq> None"
        "\<forall>i<nat n. translationDict (space_re_split (strip (replace_tab l)) ! (2 + i)) \<noteq> None"
        by auto
      have mp: "my_parent s' = my_parent (line_end_site (replace_tab l) s2)"
        using c off go(5) a by simp
      have cs: "self_channels s' = self_channels s5"
        using off go(5) by simp
      have cs0: "self_channels (line_end_site (replace_tab l) s2) = self_channels s"
        using j by simp
      show "\<exists>n. 1 < length (space_re_split (strip (replace_tab l)))
              \<and> pyint env (space_re_split (strip (replace_tab l)) ! 1) = Some n
              \<and> self_channels s' = self_channels s
                   @ channel_entries (my_parent s') (space_re_split (strip (replace_tab l))) (nat n)
              \<and> (0 < nat n \<longrightarrow> my_parent s' \<noteq> None)
              \<and> (\<forall>i<nat n. translationDict (space_re_split (strip (replace_tab l)) ! (2 + i)) \<noteq> None)"
        using n mp cs cs0 by (intro exI [of _ n]) simp
    qed
    from f m ch0 ch1 show ?thesis by blast
  qed
  from all show "frame s' = frame s" by blast
  from all show "motion s' \<longrightarrow> contains l ''MOTION''" by blast
  from all show "contains l ''MOTION'' \<and> \<not> contains l ''}'' \<longrightarrow> motion s'" by blast
  from all show "\<not> contains l ''CHANNELS'' \<longrightarrow> self_channels s' = self_channels s" by blast
  from all show "contains l ''CHANNELS'' \<and> \<not> contains l ''}'' \<longrightarrow>
          (\<exists>n. 1 < length (space_re_split (strip (replace_tab l)))
              \<and> pyint env (space_re_split (strip (replace_tab l)) ! 1) = Some n
              \<and> self_channels s' = self_channels s
                   @ channel_entries (my_parent s') (space_re_split (strip (replace_tab l))) (nat n)
              \<and> (0 < nat n \<longrightarrow> my_parent s' \<noteq> None)
              \<and> (\<forall>i<nat n. translationDict (space_re_split (strip (replace_tab l)) ! (2 + i)) \<noteq> None))"
    by blast
qed

lemma set_keyframes_Inr:
  "set_keyframes env toks k s = Inr s' \<Longrightarrow>
   s' = s\<lparr>calls := calls s @
           map (\<lambda>i. SetKeyframe (self_channels s ! (k + i)) (frame s) (the (pyfloat env (toks ! i))))
             [0..<length toks]\<rparr>"
proof (induction toks arbitrary: k s)
  case Nil
  then show ?case by simp
next
  case (Cons t toks)
  from Cons.prems obtain x where x: "pyfloat env t = Some x"
    and rest: "set_keyframes env toks (Suc k)
                 (issue (SetKeyframe (self_channels s ! k) (frame s) x) s) = Inr s'"
    by (auto split: if_splits option.splits)
  from Cons.IH [OF rest] x show ?case
    by (simp add: issue_def map_upt_Suc del: upt_Suc)
qed

lemma read_line_motion:
  assumes "read_line env s l = Inr s'" and "motion s"
  shows "s' = (if contains l ''Frame'' then s
              else s\<lparr>calls := calls s @ keyframe_calls env (self_channels s) (frame s)
                                         (space_re_split (strip (replace_tab l))),
                     frame := frame s + 1\<rparr>)"
proof (cases "contains l ''Frame''")
  case True
  with assms show ?thesis by (simp add: read_line_def line_frame_def)
next
  case False
  with assms obtain s1 where
    k: "set_keyframes env (space_re_split (strip (replace_tab l))) 0 s = Inr s1"
    and s': "s' = s1\<lparr>frame := frame s1 + 1\<rparr>"
    by (auto simp: read_line_def line_frame_def split: sum.splits)
  from set_keyframes_Inr [OF k] s' False show ?thesis
    by (simp add: keyframe_calls_def)
qed

subsection \<open>The loop\<close>

lemma read_lines_append:
  "read_lines env s (xs @ ys) =
     (case read_lines env s xs of Inl e \<Rightarrow> Inl e | Inr s1 \<Rightarrow> read_lines env s1 ys)"
  by (induction xs arbitrary: s) (auto split: sum.splits)

lemma motion_calls_Nil [simp]: "motion_calls env table t [] = []"
  by (simp add: motion_calls_def data_lines_def)

lemma motion_calls_Cons:
  "motion_calls env table t (l # ls) =
     (if contains l ''Frame'' then motion_calls env table t ls
      else keyframe_calls env table t (space_re_split (strip (replace_tab l)))
           @ motion_calls env table (Suc t) ls)"
  by (simp add: motion_calls_def data_lines_def enumerate_simps)

lemma read_lines_motion:
  "read_lines env s ls = Inr s' \<Longrightarrow> motion s \<Longrightarrow>
   s' = s\<lparr>calls := calls s @ motion_calls env (self_channels s) (frame s) ls,
          frame := frame s + length (data_lines ls)\<rparr>"
proof (induction ls arbitrary: s)
  case Nil
  then show ?case by (simp add: data_lines_def)
next
  case (Cons l ls)
  from Cons.prems(1) obtain s1 where l: "read_line env s l = Inr s1"
    and rest: "read_lines env s1 ls = Inr s'"
    by (auto split: sum.splits)
  note s1 = read_line_motion [OF l Cons.prems(2)]
  have m1: "motion s1" using s1 Cons.prems(2) by (simp split: if_splits)
  note ih = Cons.IH [OF rest m1]
  show ?case
  proof (cases "contains l ''Frame''")
    case True
    with s1 ih show ?thesis by (simp add: motion_calls_Cons data_lines_def)
  next
    case False
    with s1 have e: "s1 = s\<lparr>calls := calls s @ keyframe_calls env (self_channels s) (frame s)
                                         (space_re_split (strip (replace_tab l))),
                     frame := frame s + 1\<rparr>" by simp
    show ?thesis
      by (subst ih) (simp add: e False motion_calls_Cons data_lines_def)
  qed
qed

lemma read_lines_hier_stay:
  "read_lines env s ls = Inr s' \<Longrightarrow> \<not> motion s \<Longrightarrow> \<forall>l\<in>set ls. \<not> contains l ''MOTION'' \<Longrightarrow>
   \<not> motion s' \<and> frame s' = frame s"
proof (induction ls arbitrary: s)
  case Nil
  then show ?case by simp
next
  case (Cons l ls)
  from Cons.prems(1) obtain s1 where l: "read_line env s l = Inr s1"
    and rest: "read_lines env s1 ls = Inr s'"
    by (auto split: sum.splits)
  from read_line_hier(1,2) [OF l Cons.prems(2)] Cons.prems(3)
  have "\<not> motion s1" "frame s1 = frame s" by auto
  with Cons.IH [OF rest] Cons.prems(3) show ?case by simp
qed

lemma read_lines_channel_count:
  assumes "\<forall>l\<in>set ls. brace_separate l"
  shows "read_lines env s ls = Inr s' \<Longrightarrow>
     length (self_channels s') =
       length (self_channels s) +
       (if motion s then 0
        else sum_list (map (declared_count env)
               (filter (\<lambda>l. contains l ''CHANNELS'') (hierarchy_section ls))))"
  using assms
proof (induction ls arbitrary: s)
  case Nil
  then show ?case by simp
next
  case (Cons l ls)
  from Cons.prems(1) obtain s1 where l: "read_line env s l = Inr s1"
    and rest: "read_lines env s1 ls = Inr s'"
    by (auto split: sum.splits)
  have sep: "brace_separate l" and seps: "\<forall>l\<in>set ls. brace_separate l"
    using Cons.prems(2) by simp_all
  note ih = Cons.IH [OF rest seps]
  show ?case
  proof (cases "motion s")
    case True
    from read_line_motion [OF l True] have "motion s1" "self_channels s1 = self_channels s"
      using True by (simp_all split: if_splits)
    with ih True show ?thesis by simp
  next
    case False
    note h = read_line_hier [OF l False]
    have m1: "motion s1 = contains l ''MOTION''"
      using h(2,3) sep by (auto simp: brace_separate_def)
    have len: "length (self_channels s1) = length (self_channels s)
                 + (if contains l ''CHANNELS'' then declared_count env l else 0)"
    proof (cases "contains l ''CHANNELS''")
      case True
      with sep have "\<not> contains l ''}''" by (auto simp: brace_separate_def)
      with h(5) True show ?thesis
        by (auto simp: declared_count_def channel_entries_def)
    next
      case False
      with h(4) show ?thesis by simp
    qed
    from ih m1 len False show ?thesis by simp
  qed
qed

subsection \<open>Before the loop\<close>

lemma clear_animation_eq:
  assumes "self_root_node s = Some r"
  shows "clear_animation env s =
           Inr (s\<lparr>calls := foldl (spec_clear_node env) (calls s @ [Select (str_dag r) True])
                              (ls_sl env (calls s @ [Select (str_dag r) True]))\<rparr>)"
  using assms by (simp add: clear_animation_def Let_def clear_nodes_eq issue_def)

lemma read_start_Inr:
  assumes "read_start env s0 = Inr st"
  shows "\<not> motion st" and "frame st = 0" and "self_channels st = []" and "jnt st = None"
    and "\<not> safe_close st" and "self_data st = self_data s0"
    and "self_root_node st = self_root_node s0"
    and "self_root_node_full_path st = self_root_node_full_path s0"
proof -
  have "\<not> motion st \<and> frame st = 0 \<and> self_channels st = [] \<and> jnt st = None
      \<and> \<not> safe_close st \<and> self_data st = self_data s0
      \<and> self_root_node st = self_root_node s0
      \<and> self_root_node_full_path st = self_root_node_full_path s0"
  proof (cases "self_root_node s0")
    case None
    with assms show ?thesis
      by (auto simp: read_start_def Let_def set_scale_def issue_def split: option.splits)
  next
    case (Some r)
    with assms show ?thesis
      by (auto simp: read_start_def Let_def set_scale_def issue_def clear_animation_eq)
  qed
  then show "\<not> motion st" and "frame st = 0" and "self_channels st = []" and "jnt st = None"
    and "\<not> safe_close st" and "self_data st = self_data s0"
    and "self_root_node st = self_root_node s0"
    and "self_root_node_full_path st = self_root_node_full_path s0"
    by simp_all
qed

lemma readFile_Inr:
  assumes "readFile env s0 = Inr s'"
  obtains st ls where "read_start env s0 = Inr st" and "self_data s0 = Some ls"
    and "read_lines env st ls = Inr s'"
proof -
  from assms obtain st where st: "read_start env s0 = Inr st"
    by (auto simp: readFile_def split: sum.splits)
  with assms obtain ls where d: "self_data st = Some ls" and run: "read_lines env st ls = Inr s'"
    by (auto simp: readFile_def split: option.splits)
  from d read_start_Inr(6) [OF st] have d0: "self_data s0 = Some ls" by simp
  show thesis by (rule that [OF st d0 run])
qed

subsection \<open>The scenario, run in the reference scene\<close>

lemma hip_first_import: "readFile (demo_env hip_files) hip_fresh = Inr hip_imported"
  by code_simp

lemma hip_second_import: "readFile (demo_env hip_files) hip_imported = Inr hip_reimported"
  by code_simp

subsection \<open>The frame counter\<close>

text \<open>
  C4. When \<open>readFile\<close> succeeds on a file whose marker line \<open>m\<close> is the first line with
  \<open>MOTION\<close> (a line without a closing brace), the frame counter ends at the number of
  lines after the marker that do not contain \<open>Frame\<close>. The counter is 0 when the motion
  section starts; the lines with \<open>Frame\<close> add nothing; and the keyframes issued after the
  marker are, data line by data line, those of the line's tokens at the line's index
  among the data lines, counted from 0.
\<close>

theorem frame_counter_after_motion:
  assumes "readFile env s0 = Inr s'"
    and "self_data s0 = Some (hier @ m # mot)"
    and "\<forall>l\<in>set hier. \<not> contains l ''MOTION''"
    and "contains m ''MOTION''" and "\<not> contains m ''}''"
  shows "frame s' = length (data_lines mot)
       \<and> (\<exists>st sm. read_start env s0 = Inr st \<and> read_lines env st (hier @ [m]) = Inr sm
            \<and> motion sm \<and> frame sm = 0
            \<and> s' = sm\<lparr>calls := calls sm @ motion_calls env (self_channels sm) 0 mot,
                      frame := length (data_lines mot)\<rparr>)"
proof -
  from assms(1) obtain st ls where st: "read_start env s0 = Inr st"
    and ls: "self_data s0 = Some ls" and run: "read_lines env st ls = Inr s'"
    by (rule readFile_Inr)
  from ls assms(2) have "ls = hier @ [m] @ mot" by simp
  with run obtain sh sm where sh: "read_lines env st hier = Inr sh"
    and sm: "read_line env sh m = Inr sm" and rest: "read_lines env sm mot = Inr s'"
    by (auto simp: read_lines_append split: sum.splits)
  from read_lines_hier_stay [OF sh read_start_Inr(1) [OF st] assms(3)] read_start_Inr(2) [OF st]
  have h: "\<not> motion sh" "frame sh = 0" by simp_all
  from read_line_hier(1,3) [OF sm h(1)] assms(4,5) h(2)
  have m: "motion sm" "frame sm = 0" by simp_all
  have hm: "read_lines env st (hier @ [m]) = Inr sm"
    using sh sm by (simp add: read_lines_append)
  from read_lines_motion [OF rest m(1)] m(2)
  have s': "s' = sm\<lparr>calls := calls sm @ motion_calls env (self_channels sm) 0 mot,
                      frame := length (data_lines mot)\<rparr>"
    by simp
  then have "frame s' = length (data_lines mot)"
    by simp
  with st hm m s' show ?thesis by blast
qed

theorem frame_counter_after_motion_witness:
  "readFile (demo_env hip_files) hip_fresh = Inr hip_imported
   \<and> self_data hip_fresh = Some (hip_hierarchy @ ''MOTION\<newline>'' # hip_motion)
   \<and> list_all (\<lambda>l. \<not> contains l ''MOTION'') hip_hierarchy
   \<and> contains ''MOTION\<newline>'' ''MOTION'' \<and> \<not> contains ''MOTION\<newline>'' ''}''
   \<and> frame hip_imported = length (data_lines hip_motion)
   \<and> length (data_lines hip_motion) = 2
   \<and> (\<exists>st sm. read_start (demo_env hip_files) hip_fresh = Inr st
         \<and> read_lines (demo_env hip_files) st (hip_hierarchy @ [''MOTION\<newline>'']) = Inr sm
         \<and> motion sm \<and> frame sm = 0
         \<and> hip_imported =
             sm\<lparr>calls := calls sm @ motion_calls (demo_env hip_files) (self_channels sm) 0 hip_motion,
                frame := length (data_lines hip_motion)\<rparr>)"
proof -
  have d: "self_data hip_fresh = Some (hip_hierarchy @ ''MOTION\<newline>'' # hip_motion)"
    by (simp add: hip_fresh_def hip_bvh_def)
  have h: "\<forall>l\<in>set hip_hierarchy. \<not> contains l ''MOTION''"
    by code_simp
  have m: "contains ''MOTION\<newline>'' ''MOTION''" "\<not> contains ''MOTION\<newline>'' ''}''"
    by code_simp+
  have n: "length (data_lines hip_motion) = 2"
    by code_simp
  have h': "list_all (\<lambda>l. \<not> contains l ''MOTION'') hip_hierarchy"
    using h by (simp add: list_all_iff)
  show ?thesis
    using frame_counter_after_motion [OF hip_first_import d h m] hip_first_import d h' m n
    by blast
qed


subsection \<open>The channel table\<close>

text \<open>
  C3. \<open>readFile\<close> does not depend on the channel table it finds: the table is cleared
  before anything is read. When \<open>readFile\<close> succeeds on a file whose braces stand on
  lines of their own, the table has as many entries as the \<open>CHANNELS\<close> lines of the
  hierarchy section declare in total. A \<open>CHANNELS\<close> line appends, in the order of its
  channel names, the declared number of entries, each the full path of the current node
  followed by the attribute that the fixed table gives for the channel name; every
  other line leaves the table as it is.
\<close>

theorem channel_table_built_fresh:
  "readFile env (s0\<lparr>self_channels := cs\<rparr>) = readFile env s0
   \<and> (\<forall>s' ls. readFile env s0 = Inr s' \<and> self_data s0 = Some ls
          \<and> (\<forall>l\<in>set ls. brace_separate l) \<longrightarrow>
        length (self_channels s') =
          sum_list (map (declared_count env)
            (filter (\<lambda>l. contains l ''CHANNELS'') (hierarchy_section ls))))
   \<and> (\<forall>s l s1. \<not> motion s \<and> read_line env s l = Inr s1
          \<and> contains l ''CHANNELS'' \<and> \<not> contains l ''}'' \<longrightarrow>
        self_channels s1 = self_channels s
           @ channel_entries (my_parent s1) (space_re_split (strip (replace_tab l)))
               (declared_count env l)
        \<and> length (channel_entries (my_parent s1) (space_re_split (strip (replace_tab l)))
               (declared_count env l)) = declared_count env l
        \<and> (0 < declared_count env l \<longrightarrow> my_parent s1 \<noteq> None)
        \<and> (\<forall>i<declared_count env l.
              translationDict (space_re_split (strip (replace_tab l)) ! (2 + i)) \<noteq> None))
   \<and> (\<forall>s l s1. read_line env s l = Inr s1 \<and> (motion s \<or> \<not> contains l ''CHANNELS'') \<longrightarrow>
        self_channels s1 = self_channels s)"
proof -
  have "read_start env (s0\<lparr>self_channels := cs\<rparr>) = read_start env s0"
    by (simp add: read_start_def)
  then have A: "readFile env (s0\<lparr>self_channels := cs\<rparr>) = readFile env s0"
    by (simp add: readFile_def)
  have B: "\<forall>s' ls. readFile env s0 = Inr s' \<and> self_data s0 = Some ls
          \<and> (\<forall>l\<in>set ls. brace_separate l) \<longrightarrow>
        length (self_channels s') =
          sum_list (map (declared_count env)
            (filter (\<lambda>l. contains l ''CHANNELS'') (hierarchy_section ls)))"
  proof (intro allI impI)
    fix s' ls
    assume a: "readFile env s0 = Inr s' \<and> self_data s0 = Some ls
          \<and> (\<forall>l\<in>set ls. brace_separate l)"
    then obtain st where st: "read_start env s0 = Inr st" and run: "read_lines env st ls = Inr s'"
      by (auto elim!: readFile_Inr)
    from a have sep: "\<forall>l\<in>set ls. brace_separate l" by simp
    from read_lines_channel_count [OF sep run] read_start_Inr(1,3) [OF st]
    show "length (self_channels s') =
          sum_list (map (declared_count env)
            (filter (\<lambda>l. contains l ''CHANNELS'') (hierarchy_section ls)))"
      by simp
  qed
  have C: "\<forall>s l s1. \<not> motion s \<and> read_line env s l = Inr s1
          \<and> contains l ''CHANNELS'' \<and> \<not> contains l ''}'' \<longrightarrow>
        self_channels s1 = self_channels s
           @ channel_entries (my_parent s1) (space_re_split (strip (replace_tab l)))
               (declared_count env l)
        \<and> length (channel_entries (my_parent s1) (space_re_split (strip (replace_tab l)))
               (declared_count env l)) = declared_count env l
        \<and> (0 < declared_count env l \<longrightarrow> my_parent s1 \<noteq> None)
        \<and> (\<forall>i<declared_count env l.
              translationDict (space_re_split (strip (replace_tab l)) ! (2 + i)) \<noteq> None)"
  proof (intro allI impI)
    fix s l s1
    assume a: "\<not> motion s \<and> read_line env s l = Inr s1
          \<and> contains l ''CHANNELS'' \<and> \<not> contains l ''}''"
    then have r: "read_line env s l = Inr s1" and m: "\<not> motion s" by simp_all
    from read_line_hier(5) [OF r m] a
    show "self_channels s1 = self_channels s
           @ channel_entries (my_parent s1) (space_re_split (strip (replace_tab l)))
               (declared_count env l)
        \<and> length (channel_entries (my_parent s1) (space_re_split (strip (replace_tab l)))
               (declared_count env l)) = declared_count env l
        \<and> (0 < declared_count env l \<longrightarrow> my_parent s1 \<noteq> None)
        \<and> (\<forall>i<declared_count env l.
              translationDict (space_re_split (strip (replace_tab l)) ! (2 + i)) \<noteq> None)"
      by (auto simp: declared_count_def channel_entries_def)
  qed
  have D: "\<forall>s l s1. read_line env s l = Inr s1 \<and> (motion s \<or> \<not> contains l ''CHANNELS'') \<longrightarrow>
        self_channels s1 = self_channels s"
  proof (intro allI impI)
    fix s l s1
    assume a: "read_line env s l = Inr s1 \<and> (motion s \<or> \<not> contains l ''CHANNELS'')"
    show "self_channels s1 = self_channels s"
    proof (cases "motion s")
      case True
      with a read_line_motion [of env s l s1] show ?thesis by (simp split: if_splits)
    next
      case False
      with a read_line_hier(4) [of env s l s1] show ?thesis by simp
    qed
  qed
  from A B C D show ?thesis by (intro conjI)
qed

theorem channel_table_built_fresh_witness:
  "readFile (demo_env hip_files) hip_fresh = Inr hip_imported
   \<and> self_data hip_fresh = Some hip_bvh
   \<and> list_all brace_separate hip_bvh
   \<and> length (self_channels hip_imported) =
        sum_list (map (declared_count (demo_env hip_files))
          (filter (\<lambda>l. contains l ''CHANNELS'') (hierarchy_section hip_bvh)))
   \<and> sum_list (map (declared_count (demo_env hip_files))
          (filter (\<lambda>l. contains l ''CHANNELS'') (hierarchy_section hip_bvh))) = 6
   \<and> \<not> motion hip_state
   \<and> read_line (demo_env hip_files) hip_state ''CHANNELS 3 Zrotation Xrotation Yrotation''
       = Inr (issue (SetAttr (PStr ''Hip'') ''rotateOrder'' [AInt 4] None)
                  (hip_state\<lparr>self_channels :=
                     [''grp|Hip.rotateZ'', ''grp|Hip.rotateX'', ''grp|Hip.rotateY'']\<rparr>))
   \<and> contains ''CHANNELS 3 Zrotation Xrotation Yrotation'' ''CHANNELS''
   \<and> \<not> contains ''CHANNELS 3 Zrotation Xrotation Yrotation'' ''}''
   \<and> self_channels (issue (SetAttr (PStr ''Hip'') ''rotateOrder'' [AInt 4] None)
                  (hip_state\<lparr>self_channels :=
                     [''grp|Hip.rotateZ'', ''grp|Hip.rotateX'', ''grp|Hip.rotateY'']\<rparr>))
       = self_channels hip_state
           @ channel_entries (my_parent hip_state)
               (space_re_split (strip (replace_tab ''CHANNELS 3 Zrotation Xrotation Yrotation'')))
               (declared_count (demo_env hip_files) ''CHANNELS 3 Zrotation Xrotation Yrotation'')
   \<and> motion hip_motion_state
   \<and> read_line (demo_env hip_files) hip_motion_state ''Frames: 2'' = Inr hip_motion_state
   \<and> self_channels hip_motion_state = self_channels hip_motion_state"
proof -
  have d: "self_data hip_fresh = Some hip_bvh"
    by (simp add: hip_fresh_def)
  have b: "\<forall>l\<in>set hip_bvh. brace_separate l"
    by code_simp
  have n: "sum_list (map (declared_count (demo_env hip_files))
          (filter (\<lambda>l. contains l ''CHANNELS'') (hierarchy_section hip_bvh))) = 6"
    by code_simp
  have m: "\<not> motion hip_state" "motion hip_motion_state"
    by (simp_all add: hip_state_def hip_motion_state_def)
  have r: "read_line (demo_env hip_files) hip_state ''CHANNELS 3 Zrotation Xrotation Yrotation''
       = Inr (issue (SetAttr (PStr ''Hip'') ''rotateOrder'' [AInt 4] None)
                  (hip_state\<lparr>self_channels :=
                     [''grp|Hip.rotateZ'', ''grp|Hip.rotateX'', ''grp|Hip.rotateY'']\<rparr>))"
    by code_simp
  have c: "contains ''CHANNELS 3 Zrotation Xrotation Yrotation'' ''CHANNELS''"
    "\<not> contains ''CHANNELS 3 Zrotation Xrotation Yrotation'' ''}''"
    by code_simp+
  have f: "read_line (demo_env hip_files) hip_motion_state ''Frames: 2'' = Inr hip_motion_state"
    by code_simp
  have mp: "my_parent (issue (SetAttr (PStr ''Hip'') ''rotateOrder'' [AInt 4] None)
                  (hip_state\<lparr>self_channels :=
                     [''grp|Hip.rotateZ'', ''grp|Hip.rotateX'', ''grp|Hip.rotateY'']\<rparr>))
            = my_parent hip_state"
    by simp
  note t = channel_table_built_fresh [where env = "demo_env hip_files" and ?s0.0 = hip_fresh and cs = "[]"]
  from t hip_first_import d b
  have t1: "length (self_channels hip_imported) =
        sum_list (map (declared_count (demo_env hip_files))
          (filter (\<lambda>l. contains l ''CHANNELS'') (hierarchy_section hip_bvh)))"
    by blast
  from t m(1) r c
  have t2: "self_channels (issue (SetAttr (PStr ''Hip'') ''rotateOrder'' [AInt 4] None)
                  (hip_state\<lparr>self_channels :=
                     [''grp|Hip.rotateZ'', ''grp|Hip.rotateX'', ''grp|Hip.rotateY'']\<rparr>))
       = self_channels hip_state
           @ channel_entries (my_parent (issue (SetAttr (PStr ''Hip'') ''rotateOrder'' [AInt 4] None)
                  (hip_state\<lparr>self_channels :=
                     [''grp|Hip.rotateZ'', ''grp|Hip.rotateX'', ''grp|Hip.rotateY'']\<rparr>)))
               (space_re_split (strip (replace_tab ''CHANNELS 3 Zrotation Xrotation Yrotation'')))
               (declared_count (demo_env hip_files) ''CHANNELS 3 Zrotation Xrotation Yrotation'')"
    by blast
  from t m(2) f
  have t3: "self_channels hip_motion_state = self_channels hip_motion_state"
    by blast
  have b': "list_all brace_separate hip_bvh"
    using b by (simp add: list_all_iff)
  show ?thesis
    using hip_first_import d b' n m r c f t1 t2 [unfolded mp] t3 by blast
qed

subsection \<open>The End Site\<close>

text \<open>
  The \<open>OFFSET\<close> line of an End Site is read with \<open>safe_close\<close> on and the enclosing joint
  as the current node. The name it prepares has the suffix \<open>_tip\<close>, but the test for an
  existing node asks for the enclosing joint's own path: a joint is created only when the
  scene does not know the enclosing joint.
\<close>

lemma line_offset_end_site:
  assumes "contains l ''OFFSET''" and "safe_close s" and "my_parent s = Some p"
    and "line_offset env l s = Inr s'"
  shows "if objExists env (calls s) (full_path p)
         then jnt s' = Some (PStr (full_path p))
            \<and> (\<exists>vs. calls s' = calls s @
                  [SetAttr (PStr (full_path p)) ''translate'' (map AFloat vs) (Some ''double3'')])
         else (\<exists>vs. calls s' = calls s @
                  [Joint (str_dag p @ ''_tip''),
                   SetAttr (PStr (joint_ret env (calls s) (str_dag p @ ''_tip''))) ''translate''
                     (map AFloat vs) (Some ''double3'')])"
  using assms
  by (auto simp: line_offset_def Let_def issue_def str_node_def split: option.splits if_splits)

text \<open>
  C7. The claim that an End Site creates a leaf named \<open>B_tip\<close> and gives it the End Site's
  offset fails on the file \<open>tip_bvh\<close> in a scene where a created joint exists: the only
  joints created are \<open>A\<close> and \<open>B\<close>, no \<open>B_tip\<close> is created, and the End Site's offset
  \<open>0 0 5\<close> is written to \<open>B\<close> itself, over \<open>B\<close>'s own offset \<open>0 1 0\<close>. The End Site's
  closing brace does not ascend: after the three braces the current node is the group.
\<close>

theorem end_site_overwrites_enclosing_joint:
  "readFile (demo_env tip_files) tip_fresh = Inr tip_imported
   \<and> joint_names (calls tip_imported) = [''A'', ''B'']
   \<and> Joint ''B_tip'' \<notin> set (calls tip_imported)
   \<and> SetAttr (PStr ''B'') ''translate'' [AFloat 0, AFloat 1, AFloat 0] (Some ''double3'')
       \<in> set (calls tip_imported)
   \<and> SetAttr (PStr ''_mocap_tip_bvh_grp|A|B'') ''translate''
       [AFloat 0, AFloat 0, AFloat 5] (Some ''double3'') \<in> set (calls tip_imported)
   \<and> my_parent tip_imported = Some (TinyDAG (ObjStr ''_mocap_tip_bvh_grp'') None)"
proof -
  have run: "readFile (demo_env tip_files) tip_fresh = Inr tip_imported"
    by code_simp
  then show ?thesis
    by (simp add: tip_imported_def)
qed

subsection \<open>Which commands a line can add\<close>

lemma ascend_calls: "\<exists>cs. calls (ascend s) = calls s @ cs \<and> filter is_rotate_order cs = []"
  by (auto simp: ascend_def issue_def split: option.splits)

lemma line_offset_calls:
  assumes "line_offset env l s = Inr s6"
  shows "\<exists>cs. calls s6 = calls s @ cs \<and> filter is_rotate_order cs = []"
  using assms
  by (auto simp: line_offset_def Let_def issue_def split: option.splits if_splits)

lemma line_channels_calls:
  assumes "line_channels env l s = Inr s5"
  shows "\<exists>cs. calls s5 = calls s @ cs"
  using assms line_channels_Inr [OF assms]
  by (cases "contains l ''CHANNELS''") (auto simp: line_channels_def)

lemma read_line_calls:
  assumes "read_line env s l = Inr s'"
  shows "prefix (calls s) (calls s')"
proof (cases "motion s")
  case True
  from read_line_motion [OF assms True] show ?thesis
    by (auto split: if_splits)
next
  case False
  from assms False show ?thesis
  proof (cases rule: read_line_hier_cases)
    case (skip s2)
    with line_joint_Inr [OF skip(1)] show ?thesis by simp
  next
    case (go s2 s5 s6)
    from line_joint_Inr [OF go(1)] have c2: "calls s2 = calls s" by simp
    have "\<exists>c3. calls (if contains l ''}'' then ascend (line_end_site (replace_tab l) s2)
          else line_end_site (replace_tab l) s2) = calls s2 @ c3"
      using ascend_calls [of "line_end_site (replace_tab l) s2"]
      by (cases "contains l ''}''") auto
    then obtain c3 where c3: "calls (if contains l ''}'' then ascend (line_end_site (replace_tab l) s2)
          else line_end_site (replace_tab l) s2) = calls s2 @ c3"
      by blast
    obtain c5 where c5: "calls s5 = calls (if contains l ''}'' then ascend (line_end_site (replace_tab l) s2)
          else line_end_site (replace_tab l) s2) @ c5"
      using line_channels_calls [OF go(3)] by blast
    obtain c6 where c6: "calls s6 = calls s5 @ c6"
      using line_offset_calls [OF go(4)] by blast
    from c2 c3 c5 c6 go(5) show ?thesis by simp
  qed
qed

lemma read_lines_calls:
  "read_lines env s ls = Inr s' \<Longrightarrow> prefix (calls s) (calls s')"
proof (induction ls arbitrary: s)
  case Nil
  then show ?case by simp
next
  case (Cons l ls)
  from Cons.prems obtain s1 where l: "read_line env s l = Inr s1"
    and rest: "read_lines env s1 ls = Inr s'"
    by (auto split: sum.splits)
  from read_line_calls [OF l] Cons.IH [OF rest] show ?case
    using prefix_order.order_trans by blast
qed

subsection \<open>The persisted root stays\<close>

lemma line_root_kept:
  "self_root_node s = Some r \<Longrightarrow>
   self_root_node (line_root l s) = Some r
   \<and> self_root_node_full_path (line_root l s) = self_root_node_full_path s"
  by (simp add: line_root_def)

lemma read_line_root_kept:
  assumes "read_line env s l = Inr s'" and "self_root_node s = Some r"
  shows "self_root_node s' = Some r \<and> self_root_node_full_path s' = self_root_node_full_path s"
proof (cases "motion s")
  case True
  from read_line_motion [OF assms(1) True] assms(2) show ?thesis
    by (auto split: if_splits)
next
  case False
  from assms(1) False show ?thesis
  proof (cases rule: read_line_hier_cases)
    case (skip s2)
    with line_joint_Inr [OF skip(1)] line_root_kept [OF assms(2)] show ?thesis by simp
  next
    case (go s2 s5 s6)
    from line_joint_Inr [OF go(1)] line_root_kept [OF assms(2), of "replace_tab l"]
    have "self_root_node s2 = Some r"
      "self_root_node_full_path s2 = self_root_node_full_path s" by simp_all
    with line_channels_fields [OF go(3)] line_offset_fields [OF go(4)] go(5)
    show ?thesis by (simp split: if_splits)
  qed
qed

lemma read_lines_root_kept:
  "read_lines env s ls = Inr s' \<Longrightarrow> self_root_node s = Some r \<Longrightarrow>
   self_root_node s' = Some r \<and> self_root_node_full_path s' = self_root_node_full_path s"
proof (induction ls arbitrary: s)
  case Nil
  then show ?case by simp
next
  case (Cons l ls)
  from Cons.prems(1) obtain s1 where l: "read_line env s l = Inr s1"
    and rest: "read_lines env s1 ls = Inr s'"
    by (auto split: sum.splits)
  from read_line_root_kept [OF l Cons.prems(2)] Cons.IH [OF rest] show ?case by simp
qed

subsection \<open>The target of the rotation order\<close>












subsection \<open>The ROOT line on a re-import\<close>

lemma full_path_parent: "parent r = Some q \<Longrightarrow> full_path r \<noteq> str_dag r"
  by (cases r) auto

text \<open>
  C8, as the code has it. With a persisted root \<open>r\<close>, a \<open>ROOT\<close> line changes nothing but
  the current node, which becomes a parentless node named \<open>str(r)\<close>; its path is that
  bare name, which is not the full path of \<open>r\<close> when \<open>r\<close> has a parent. Before any line
  is read the scale is set again and the animation is cleared, and a successful pass
  keeps the persisted root and its full path.
\<close>

theorem reimport_root_line:
  assumes "self_root_node s0 = Some r"
  shows "(\<forall>s l. self_root_node s = Some r \<and> startswith l ''ROOT'' \<longrightarrow>
            line_root l s = s\<lparr>my_parent := Some (TinyDAG (ObjStr (str_dag r)) None)\<rparr>)
       \<and> full_path (TinyDAG (ObjStr (str_dag r)) None) = str_dag r
       \<and> (\<forall>q. parent r = Some q \<longrightarrow> full_path r \<noteq> str_dag r)
       \<and> (\<exists>st. read_start env s0 = Inr st
             \<and> calls st =
                 foldl (spec_clear_node env)
                   (calls s0 @ [SetAttr (PStr (takeWhile (\<lambda>c. c \<noteq> CHR ''|'') (root_node s0)))
                                  ''scale'' [AFloat (self_scale s0), AFloat (self_scale s0),
                                             AFloat (self_scale s0)] None,
                                Select (str_dag r) True])
                   (ls_sl env
                     (calls s0 @ [SetAttr (PStr (takeWhile (\<lambda>c. c \<noteq> CHR ''|'') (root_node s0)))
                                  ''scale'' [AFloat (self_scale s0), AFloat (self_scale s0),
                                             AFloat (self_scale s0)] None,
                                Select (str_dag r) True]))
             \<and> my_parent st = Some (TinyDAG (ObjDag r) None)
             \<and> readFile env s0 =
                 (case self_data s0 of None \<Rightarrow> Inl (TypeError, st)
                  | Some ls \<Rightarrow> read_lines env st ls)
             \<and> (\<forall>s'. readFile env s0 = Inr s' \<longrightarrow>
                   prefix (calls st) (calls s') \<and> self_root_node s' = Some r
                   \<and> self_root_node_full_path s' = self_root_node_full_path s0))"
proof -
  have A: "\<forall>s l. self_root_node s = Some r \<and> startswith l ''ROOT'' \<longrightarrow>
            line_root l s = s\<lparr>my_parent := Some (TinyDAG (ObjStr (str_dag r)) None)\<rparr>"
    by (simp add: line_root_def)
  have B: "full_path (TinyDAG (ObjStr (str_dag r)) None) = str_dag r"
    by simp
  have C: "\<forall>q. parent r = Some q \<longrightarrow> full_path r \<noteq> str_dag r"
    using full_path_parent by blast
  let ?t = "(set_scale (takeWhile (\<lambda>c. c \<noteq> CHR ''|'')
                (root_node (s0\<lparr>safe_close := False, motion := False, self_channels := [],
                               frame := 0, jnt := None\<rparr>)))
              (s0\<lparr>safe_close := False, motion := False, self_channels := [],
                  frame := 0, jnt := None\<rparr>))\<lparr>my_parent := Some (TinyDAG (ObjDag r) None)\<rparr>"
  have rt: "self_root_node ?t = Some r" using assms by (simp add: set_scale_def)
  have rs: "read_start env s0 = clear_animation env ?t"
    using assms by (simp add: read_start_def Let_def)
  obtain st where st: "read_start env s0 = Inr st"
    and stv: "st = ?t\<lparr>calls := foldl (spec_clear_node env) (calls ?t @ [Select (str_dag r) True])
                              (ls_sl env (calls ?t @ [Select (str_dag r) True]))\<rparr>"
    using rs clear_animation_eq [OF rt, where env = env] by simp
  have ct: "calls ?t = calls s0 @ [SetAttr (PStr (takeWhile (\<lambda>c. c \<noteq> CHR ''|'') (root_node s0)))
                                  ''scale'' [AFloat (self_scale s0), AFloat (self_scale s0),
                                             AFloat (self_scale s0)] None]"
    by (simp add: set_scale_def root_node_def)
  have D1: "calls st =
                 foldl (spec_clear_node env)
                   (calls s0 @ [SetAttr (PStr (takeWhile (\<lambda>c. c \<noteq> CHR ''|'') (root_node s0)))
                                  ''scale'' [AFloat (self_scale s0), AFloat (self_scale s0),
                                             AFloat (self_scale s0)] None,
                                Select (str_dag r) True])
                   (ls_sl env
                     (calls s0 @ [SetAttr (PStr (takeWhile (\<lambda>c. c \<noteq> CHR ''|'') (root_node s0)))
                                  ''scale'' [AFloat (self_scale s0), AFloat (self_scale s0),
                                             AFloat (self_scale s0)] None,
                                Select (str_dag r) True]))"
    unfolding stv using ct by simp
  have D2: "my_parent st = Some (TinyDAG (ObjDag r) None)"
    unfolding stv by simp
  have D3: "readFile env s0 =
                 (case self_data s0 of None \<Rightarrow> Inl (TypeError, st)
                  | Some ls \<Rightarrow> read_lines env st ls)"
    using st read_start_Inr(6) [OF st] by (simp add: readFile_def)
  have D4: "\<forall>s'. readFile env s0 = Inr s' \<longrightarrow>
                   prefix (calls st) (calls s') \<and> self_root_node s' = Some r
                   \<and> self_root_node_full_path s' = self_root_node_full_path s0"
  proof (intro allI impI)
    fix s' assume "readFile env s0 = Inr s'"
    with D3 obtain ls where run: "read_lines env st ls = Inr s'"
      by (auto split: option.splits)
    have r: "self_root_node st = Some r" using read_start_Inr(7) [OF st] assms by simp
    from read_lines_calls [OF run] read_lines_root_kept [OF run r] read_start_Inr(8) [OF st]
    show "prefix (calls st) (calls s') \<and> self_root_node s' = Some r
                   \<and> self_root_node_full_path s' = self_root_node_full_path s0"
      by simp
  qed
  from A B C st D1 D2 D3 D4 show ?thesis by blast
qed

theorem reimport_root_line_witness:
  "self_root_node hip_imported
      = Some (TinyDAG (ObjStr ''Hip'') (Some (TinyDAG (ObjStr ''_mocap_hip_bvh_grp'') None)))
   \<and> startswith ''ROOT Hip\<newline>'' ''ROOT''
   \<and> line_root ''ROOT Hip\<newline>'' hip_imported
        = hip_imported\<lparr>my_parent := Some (TinyDAG (ObjStr ''Hip'') None)\<rparr>
   \<and> parent (TinyDAG (ObjStr ''Hip'') (Some (TinyDAG (ObjStr ''_mocap_hip_bvh_grp'') None)))
        = Some (TinyDAG (ObjStr ''_mocap_hip_bvh_grp'') None)
   \<and> full_path (TinyDAG (ObjStr ''Hip'') (Some (TinyDAG (ObjStr ''_mocap_hip_bvh_grp'') None)))
        \<noteq> ''Hip''
   \<and> readFile (demo_env hip_files) hip_imported = Inr hip_reimported
   \<and> self_root_node hip_reimported
      = Some (TinyDAG (ObjStr ''Hip'') (Some (TinyDAG (ObjStr ''_mocap_hip_bvh_grp'') None)))
   \<and> self_root_node_full_path hip_reimported = self_root_node_full_path hip_imported
   \<and> (\<exists>st. read_start (demo_env hip_files) hip_imported = Inr st
          \<and> prefix (calls st) (calls hip_reimported))"
proof -
  have r: "self_root_node hip_imported
      = Some (TinyDAG (ObjStr ''Hip'') (Some (TinyDAG (ObjStr ''_mocap_hip_bvh_grp'') None)))"
    by (simp add: hip_imported_def)
  have sw: "startswith ''ROOT Hip\<newline>'' ''ROOT''"
    by (simp add: startswith_def)
  have p: "parent (TinyDAG (ObjStr ''Hip'') (Some (TinyDAG (ObjStr ''_mocap_hip_bvh_grp'') None)))
        = Some (TinyDAG (ObjStr ''_mocap_hip_bvh_grp'') None)"
    by simp
  note t = reimport_root_line [OF r, where env = "demo_env hip_files"]
  from t [THEN conjunct1] have "\<forall>s l. self_root_node s
         = Some (TinyDAG (ObjStr ''Hip'') (Some (TinyDAG (ObjStr ''_mocap_hip_bvh_grp'') None)))
       \<and> startswith l ''ROOT'' \<longrightarrow>
       line_root l s = s\<lparr>my_parent := Some (TinyDAG (ObjStr ''Hip'') None)\<rparr>"
    by simp
  with r sw have t1: "line_root ''ROOT Hip\<newline>'' hip_imported
        = hip_imported\<lparr>my_parent := Some (TinyDAG (ObjStr ''Hip'') None)\<rparr>"
    by blast
  from t [THEN conjunct2, THEN conjunct2, THEN conjunct1] p have t2: "full_path (TinyDAG (ObjStr ''Hip'') (Some (TinyDAG (ObjStr ''_mocap_hip_bvh_grp'') None)))
        \<noteq> ''Hip''"
    by simp
  from t [THEN conjunct2, THEN conjunct2, THEN conjunct2] hip_second_import
  have t3: "self_root_node hip_reimported
      = Some (TinyDAG (ObjStr ''Hip'') (Some (TinyDAG (ObjStr ''_mocap_hip_bvh_grp'') None)))
     \<and> self_root_node_full_path hip_reimported = self_root_node_full_path hip_imported
     \<and> (\<exists>st. read_start (demo_env hip_files) hip_imported = Inr st
          \<and> prefix (calls st) (calls hip_reimported))"
    by blast
  from r sw p t1 t2 t3 hip_second_import show ?thesis by (intro conjI) simp_all
qed


text \<open>
  C8, as stated, fails: on the second import of the scenario the persisted full path is
  \<open>_mocap_hip_bvh_grp|Hip\<close>, but the node that the \<open>ROOT\<close> line makes current has the
  path \<open>Hip\<close>, and the channel table is built from that.
\<close>

theorem reimport_parent_is_bare_name:
  "readFile (demo_env hip_files) hip_imported = Inr hip_reimported
   \<and> self_root_node_full_path hip_imported = Some ''_mocap_hip_bvh_grp|Hip''
   \<and> my_parent (line_root ''ROOT Hip\<newline>'' hip_imported) = Some (TinyDAG (ObjStr ''Hip'') None)
   \<and> full_path (TinyDAG (ObjStr ''Hip'') None) = ''Hip''
   \<and> self_channels hip_reimported = hip_table ''Hip''
   \<and> hip_table ''Hip'' \<noteq> hip_table ''_mocap_hip_bvh_grp|Hip''"
  using hip_second_import
  by (simp add: hip_imported_def hip_reimported_def hip_fresh_def line_root_def startswith_def
        hip_table_def)

subsection \<open>A second pass over the same file\<close>

text \<open>Chains and paths.\<close>

lemma chain_nonempty [simp]: "chain p \<noteq> []"
  by (induction p rule: chain.induct) auto




lemma node_chain_Nil: "node_chain n = [] \<longleftrightarrow> n = None"
  by (cases n) (simp_all add: node_chain_def)





subsection \<open>keyframes of a command list\<close>









subsection \<open>The file text stays\<close>

lemma line_root_data [simp]: "self_data (line_root l s) = self_data s"
  by (simp add: line_root_def Let_def split: option.splits)

lemma ascend_data [simp]: "self_data (ascend s) = self_data s"
  by (simp add: ascend_def issue_def split: option.splits)






subsection \<open>Lines without a keyword\<close>




subsection \<open>Two passes over the same lines\<close>















subsection \<open>The start of the two passes\<close>







end
